theory Spec2Isabelle
  imports Main "HOL-Library.Word"
begin

unbundle bit_operations_syntax

section \<open>Bytes, big-endian integers and hexadecimal text\<close>

type_synonym byte = "8 word"
type_synonym bytes = "byte list"

text \<open>Go's \<^verbatim>\<open>[]byte(s)\<close> for a string \<open>s\<close>: the bytes of the string.\<close>

definition bytes_of_string :: "string \<Rightarrow> bytes" where
  "bytes_of_string s = map of_char s"

text \<open>\<^verbatim>\<open>binary.BigEndian.PutUint32\<close> and \<^verbatim>\<open>sdk.Uint64ToBigEndian\<close>: most significant
  byte first.\<close>

definition Uint32ToBigEndian :: "32 word \<Rightarrow> bytes" where
  "Uint32ToBigEndian v =
     [ucast (drop_bit 24 v), ucast (drop_bit 16 v), ucast (drop_bit 8 v), ucast v]"

definition Uint64ToBigEndian :: "64 word \<Rightarrow> bytes" where
  "Uint64ToBigEndian v =
     [ucast (drop_bit 56 v), ucast (drop_bit 48 v), ucast (drop_bit 40 v), ucast (drop_bit 32 v),
      ucast (drop_bit 24 v), ucast (drop_bit 16 v), ucast (drop_bit 8 v), ucast v]"

definition BigEndianUint32 :: "bytes \<Rightarrow> 32 word" where
  "BigEndianUint32 b =
     push_bit 24 (ucast (b ! 0)) OR push_bit 16 (ucast (b ! 1))
       OR push_bit 8 (ucast (b ! 2)) OR ucast (b ! 3)"

text \<open>\<^verbatim>\<open>hex.EncodeToString\<close>: two lower-case hexadecimal digits per byte.\<close>

definition hextable :: string where
  "hextable = ''0123456789abcdef''"

definition EncodeToString :: "bytes \<Rightarrow> string" where
  "EncodeToString src =
     concat (map (\<lambda>v. [hextable ! unat (drop_bit 4 v), hextable ! unat (v AND 0x0f)]) src)"


section \<open>SHA-256\<close>

text \<open>
  \<^verbatim>\<open>sdk.SHA256\<close> and \<^verbatim>\<open>crypto.AddressHash\<close> are library calls of keeper.go; the hash
  is SHA-256 as FIPS 180-4 defines it: the message is padded to a multiple of 64 bytes,
  and each block of sixteen big-endian words is expanded to 64 words and run through
  64 rounds.
\<close>

definition sha256_K :: "32 word list" where
  "sha256_K =
    [0x428A2F98, 0x71374491, 0xB5C0FBCF, 0xE9B5DBA5, 0x3956C25B, 0x59F111F1, 0x923F82A4, 0xAB1C5ED5,
     0xD807AA98, 0x12835B01, 0x243185BE, 0x550C7DC3, 0x72BE5D74, 0x80DEB1FE, 0x9BDC06A7, 0xC19BF174,
     0xE49B69C1, 0xEFBE4786, 0x0FC19DC6, 0x240CA1CC, 0x2DE92C6F, 0x4A7484AA, 0x5CB0A9DC, 0x76F988DA,
     0x983E5152, 0xA831C66D, 0xB00327C8, 0xBF597FC7, 0xC6E00BF3, 0xD5A79147, 0x06CA6351, 0x14292967,
     0x27B70A85, 0x2E1B2138, 0x4D2C6DFC, 0x53380D13, 0x650A7354, 0x766A0ABB, 0x81C2C92E, 0x92722C85,
     0xA2BFE8A1, 0xA81A664B, 0xC24B8B70, 0xC76C51A3, 0xD192E819, 0xD6990624, 0xF40E3585, 0x106AA070,
     0x19A4C116, 0x1E376C08, 0x2748774C, 0x34B0BCB5, 0x391C0CB3, 0x4ED8AA4A, 0x5B9CCA4F, 0x682E6FF3,
     0x748F82EE, 0x78A5636F, 0x84C87814, 0x8CC70208, 0x90BEFFFA, 0xA4506CEB, 0xBEF9A3F7, 0xC67178F2]"

type_synonym sha256_state =
  "32 word \<times> 32 word \<times> 32 word \<times> 32 word \<times> 32 word \<times> 32 word \<times> 32 word \<times> 32 word"

definition sha256_init :: sha256_state where
  "sha256_init =
    (0x6a09e667, 0xbb67ae85, 0x3c6ef372, 0xa54ff53a,
     0x510e527f, 0x9b05688c, 0x1f83d9ab, 0x5be0cd19)"

definition sha256_pad :: "bytes \<Rightarrow> bytes" where
  "sha256_pad m =
     m @ [0x80] @ replicate ((119 - length m mod 64) mod 64) 0
       @ Uint64ToBigEndian (word_of_nat (8 * length m))"

definition sha256_block_words :: "bytes \<Rightarrow> 32 word list" where
  "sha256_block_words blk = map (\<lambda>i. BigEndianUint32 (take 4 (drop (4 * i) blk))) [0..<16]"

definition sha256_schedule :: "32 word list \<Rightarrow> 32 word list" where
  "sha256_schedule w16 =
     fold (\<lambda>t w.
        let v1 = w ! (t - 2); v0 = w ! (t - 15);
            t1 = word_rotr 17 v1 XOR word_rotr 19 v1 XOR drop_bit 10 v1;
            t0 = word_rotr 7 v0 XOR word_rotr 18 v0 XOR drop_bit 3 v0
        in w @ [t1 + w ! (t - 7) + t0 + w ! (t - 16)]) [16..<64] w16"

definition sha256_round :: "32 word list \<Rightarrow> nat \<Rightarrow> sha256_state \<Rightarrow> sha256_state" where
  "sha256_round w i s =
     (case s of (a, b, c, d, e, f, g, h) \<Rightarrow>
        let t1 = h + (word_rotr 6 e XOR word_rotr 11 e XOR word_rotr 25 e)
                   + ((e AND f) XOR (NOT e AND g)) + sha256_K ! i + w ! i;
            t2 = (word_rotr 2 a XOR word_rotr 13 a XOR word_rotr 22 a)
                   + ((a AND b) XOR (a AND c) XOR (b AND c))
        in (t1 + t2, a, b, c, d + t1, e, f, g))"

definition sha256_block :: "sha256_state \<Rightarrow> bytes \<Rightarrow> sha256_state" where
  "sha256_block s blk =
     (case s of (h0, h1, h2, h3, h4, h5, h6, h7) \<Rightarrow>
        case fold (sha256_round (sha256_schedule (sha256_block_words blk))) [0..<64] s of
          (a, b, c, d, e, f, g, h) \<Rightarrow>
            (h0 + a, h1 + b, h2 + c, h3 + d, h4 + e, h5 + f, h6 + g, h7 + h))"

definition SHA256 :: "bytes \<Rightarrow> bytes" where
  "SHA256 m =
     (let p = sha256_pad m in
      case fold (\<lambda>i s. sha256_block s (take 64 (drop (64 * i) p)))
             [0..<length p div 64] sha256_init of
        (h0, h1, h2, h3, h4, h5, h6, h7) \<Rightarrow>
          concat (map Uint32ToBigEndian [h0, h1, h2, h3, h4, h5, h6, h7]))"


section \<open>Slices and the arrays behind them\<close>

text \<open>
  A Go \<^verbatim>\<open>[]byte\<close> is a window on an array: the array, where the window starts, its
  length and its capacity (how far it may grow within the array). Two slices may look
  at the same array. The heap gives each array its bytes; \<open>slice_bytes\<close> reads the bytes
  a slice shows. Go only makes slices that fit their array (\<open>valid_slice\<close>).
\<close>

type_synonym heap = "nat \<Rightarrow> bytes"

record slice =
  Data :: nat
  Offset :: nat
  Len :: nat
  Cap :: nat

definition slice_bytes :: "heap \<Rightarrow> slice \<Rightarrow> bytes" where
  "slice_bytes h s = take (Len s) (drop (Offset s) (h (Data s)))"

definition valid_slice :: "heap \<Rightarrow> slice \<Rightarrow> bool" where
  "valid_slice h s \<longleftrightarrow> Len s \<le> Cap s \<and> Offset s + Cap s \<le> length (h (Data s))"

text \<open>Writing bytes into an array from a position on; the array keeps its length.\<close>

definition overwrite :: "bytes \<Rightarrow> nat \<Rightarrow> bytes \<Rightarrow> bytes" where
  "overwrite a p xs = take (length a) (take p a @ xs @ drop (p + length xs) a)"

text \<open>
  Go's \<^verbatim>\<open>append(s, xs...)\<close>. Where the capacity of \<open>s\<close> has room for \<open>xs\<close>, the bytes
  are written into the array of \<open>s\<close> right after its window and the result is the grown
  window on the same array; otherwise the result is a new array, and the arrays there
  were stay as they are. The model returns the heap and the bytes of the result.
\<close>

definition append_slice :: "heap \<Rightarrow> slice \<Rightarrow> bytes \<Rightarrow> heap \<times> bytes" where
  "append_slice h s xs =
     (if Len s + length xs \<le> Cap s then
        let h' = h(Data s := overwrite (h (Data s)) (Offset s + Len s) xs)
        in (h', slice_bytes h' (s\<lparr>Len := Len s + length xs\<rparr>))
      else (h, slice_bytes h s @ xs))"

text \<open>Appending \<open>n\<close> bytes to \<open>s\<close> writes no byte that the slice \<open>t\<close> shows: \<open>s\<close> has
  no room for them, or \<open>t\<close> is on another array, or \<open>t\<close> ends before or starts after
  the bytes written.\<close>

definition append_spares :: "slice \<Rightarrow> nat \<Rightarrow> slice \<Rightarrow> bool" where
  "append_spares s n t \<longleftrightarrow>
     Cap s < Len s + n \<or> Data t \<noteq> Data s \<or>
     Offset t + Len t \<le> Offset s + Len s \<or> Offset s + Len s + n \<le> Offset t"


section \<open>The data model\<close>

text \<open>
  Modelled from the spec: the package \<^verbatim>\<open>types\<close> (the HTLC struct, its states, the
  error constructors and the tag keys) is declared outside keeper.go. The record is the
  contract record of section 3 with the fields keeper.go reads and writes (the digest is
  not a field: keeper.go passes it beside the record), and the states are the four of
  section 4.4, \<open>Open\<close>, \<open>Completed\<close>, \<open>Expired\<close> and \<open>Refunded\<close>. An address is a byte
  string, an amount an integer without a machine width (\<^verbatim>\<open>sdk.Int\<close>).
\<close>

type_synonym AccAddress = bytes

record Coin =
  Denom :: string
  Amount :: int

datatype HTLCState = StateOpen | StateCompleted | StateExpired | StateRefunded

record HTLC =
  Sender :: AccAddress
  Receiver :: AccAddress
  ReceiverOnOtherChain :: bytes
  OutAmount :: Coin
  Secret :: bytes
  Timestamp :: "64 word"
  ExpireHeight :: "64 word"
  State :: HTLCState

text \<open>
  An \<^verbatim>\<open>sdk.Error\<close>. The first four are the errors keeper.go makes, each from a
  codespace and a message; in the words of section 7 of the spec they are
  DuplicateHashLock, NotFound, InvalidState and InvalidSecret. The errors of the bank
  keeper are the bank's own (insufficient coins, say): \<open>ErrBank e\<close> is the bank's error
  \<open>e\<close>, which the keeper returns to its caller as it is (TransferFailed).
\<close>

datatype sdk_error =
    ErrSecretHashLockAlreadyExists string string
  | ErrInvalidSecretHashLock string string
  | ErrStateIsNotOpen string string
  | ErrInvalidSecret string string
  | ErrBank string

text \<open>An operation that does not produce its result either returns an error or panics.\<close>

datatype failure = Error sdk_error | Panic

text \<open>
  Tags: a key with a value. \<open>AddressString a\<close> is the text form \<^verbatim>\<open>a.String()\<close> of the
  address \<open>a\<close>, \<open>CoinString c\<close> the text form of a coin; both are computed outside keeper.go.
\<close>

datatype TagKey = TagSender | TagReceiver | TagReceiverOnOtherChain | TagSecretHashLock | TagSecret

datatype TagValue = AddressString AccAddress | CoinString Coin | Text string | Raw bytes

type_synonym Tags = "(TagKey \<times> TagValue) list"

datatype CoinFlowType = CoinHTLCCreateFlow | CoinHTLCClaimFlow | CoinHTLCRefundFlow

type_synonym CoinFlowTag = "TagValue \<times> TagValue \<times> TagValue \<times> CoinFlowType \<times> string"

text \<open>
  The context of a call: the module's key-value store \<^verbatim>\<open>ctx.KVStore(k.storeKey)\<close>, the
  state the bank keeper works on, the coin-flow tags, and the list of the transfers the
  keeper has asked the bank keeper for (sender, receiver, coins), in the order of the calls.
\<close>

type_synonym KVStore = "bytes \<rightharpoonup> bytes"

record 'b Context =
  KVStore :: KVStore
  bank :: 'b
  CoinFlowTags :: "CoinFlowTag list"
  transfers :: "(AccAddress \<times> AccAddress \<times> Coin list) list"

text \<open>
  The keeper holds a codec and a bank keeper. The codec's
  \<^verbatim>\<open>MustMarshalBinaryLengthPrefixed\<close> is used on a record and on a digest,
  \<^verbatim>\<open>MustUnmarshalBinaryLengthPrefixed\<close> on a record, where it panics on bytes that do not
  decode (\<open>None\<close>). The bank keeper is the interface \<^verbatim>\<open>SendCoins\<close>: from its state,
  the two addresses and the coins it gives its new state and its error, if any.
\<close>

record Codec =
  MarshalHTLC :: "HTLC \<Rightarrow> bytes"
  MarshalBytes :: "bytes \<Rightarrow> bytes"
  UnmarshalHTLC :: "bytes \<Rightarrow> HTLC option"

type_synonym 'b BankKeeper =
  "'b \<Rightarrow> AccAddress \<Rightarrow> AccAddress \<Rightarrow> Coin list \<Rightarrow> 'b \<times> string option"

record 'b Keeper =
  cdc :: Codec
  bk :: "'b BankKeeper"
  codespace :: string

text \<open>\<^verbatim>\<open>types.DefaultCodespace\<close>, the module's own codespace; nothing below depends on
  its value.\<close>

definition DefaultCodespace :: string where
  "DefaultCodespace = ''htlc''"


section \<open>Store keys\<close>

text \<open>
  Modelled from the spec: \<^verbatim>\<open>KeyHTLC\<close> and \<^verbatim>\<open>KeyHTLCExpireQueue\<close> are declared outside
  keeper.go; the key layout is that of section 6, \<^verbatim>\<open>"htlc:" || secretHashLock\<close> for a
  record and \<^verbatim>\<open>"htlc:expire:" || bigEndian(expireHeight) || secretHashLock\<close> for an
  entry of the expiration index.
\<close>

definition PrefixHTLC :: bytes where
  "PrefixHTLC = bytes_of_string ''htlc:''"

definition PrefixHTLCExpireQueue :: bytes where
  "PrefixHTLCExpireQueue = bytes_of_string ''htlc:expire:''"

definition KeyHTLC :: "bytes \<Rightarrow> bytes" where
  "KeyHTLC secretHashLock = PrefixHTLC @ secretHashLock"

definition KeyHTLCExpireQueue :: "64 word \<Rightarrow> bytes \<Rightarrow> bytes" where
  "KeyHTLCExpireQueue expireHeight secretHashLock =
     PrefixHTLCExpireQueue @ Uint64ToBigEndian expireHeight @ secretHashLock"

text \<open>
  Modelled from the spec: the range scan of the expiration index over one height
  (section 4.3) is an iteration of the store, not in keeper.go. It yields the digests
  \<open>d\<close> whose key \<open>KeyHTLCExpireQueue h d\<close> is in the store, that is the keys that
  extend the height's prefix.
\<close>

definition InExpireQueueScan :: "'b Context \<Rightarrow> 64 word \<Rightarrow> bytes \<Rightarrow> bool" where
  "InExpireQueueScan ctx expireHeight secretHashLock \<longleftrightarrow>
     KVStore ctx (KeyHTLCExpireQueue expireHeight secretHashLock) \<noteq> None"


section \<open>The keeper\<close>

text \<open>\<^verbatim>\<open>getHTLCAddress\<close>: the address that holds the locked tokens of a denomination,
  \<^verbatim>\<open>crypto.AddressHash\<close> (the first 20 bytes of SHA-256) of the denomination.\<close>

definition AddressHash :: "bytes \<Rightarrow> bytes" where
  "AddressHash bz = take 20 (SHA256 bz)"

definition getHTLCAddress :: "string \<Rightarrow> AccAddress" where
  "getHTLCAddress denom = AddressHash (bytes_of_string denom)"

text \<open>\<^verbatim>\<open>k.bk.SendCoins\<close>, with the call added to the context's list of transfers.\<close>

definition SendCoins ::
  "'b Keeper \<Rightarrow> 'b Context \<Rightarrow> AccAddress \<Rightarrow> AccAddress \<Rightarrow> Coin list
     \<Rightarrow> 'b Context \<times> sdk_error option" where
  "SendCoins k ctx fromAddr toAddr amt =
     (case bk k (bank ctx) fromAddr toAddr amt of
        (b', err) \<Rightarrow>
          (ctx\<lparr>bank := b', transfers := transfers ctx @ [(fromAddr, toAddr, amt)]\<rparr>,
           map_option ErrBank err))"

text \<open>\<^verbatim>\<open>ctx.CoinFlowTags().AppendCoinFlowTag\<close>: one more coin-flow tag in the context.\<close>

definition AppendCoinFlowTag ::
  "'b Context \<Rightarrow> TagValue \<Rightarrow> TagValue \<Rightarrow> TagValue \<Rightarrow> CoinFlowType \<Rightarrow> string \<Rightarrow> 'b Context" where
  "AppendCoinFlowTag ctx fromAddr toAddr amount flowType desc =
     ctx\<lparr>CoinFlowTags := CoinFlowTags ctx @ [(fromAddr, toAddr, amount, flowType, desc)]\<rparr>"

text \<open>\<^verbatim>\<open>GetSecretHashLock\<close> (lines 154-157): a method of the keeper that uses neither the
  keeper nor a context. It appends the timestamp to the slice it is given, so it may
  write into the caller's array; the digest is a new array.\<close>

definition GetSecretHashLock ::
  "'b Keeper \<Rightarrow> heap \<Rightarrow> slice \<Rightarrow> 64 word \<Rightarrow> heap \<times> bytes" where
  "GetSecretHashLock k h secret timestamp =
     (case append_slice h secret (Uint64ToBigEndian timestamp) of
        (h', data) \<Rightarrow> (h', SHA256 data))"

text \<open>The store (lines 159-201). \<^verbatim>\<open>store.Get\<close> gives \<^verbatim>\<open>nil\<close> for a key the store does not
  have; \<open>GetHTLC\<close> then returns \<^verbatim>\<open>ErrInvalidSecretHashLock\<close>, and otherwise decodes the
  bytes, which panics when they are not a record's.\<close>

definition HasSecretHashLock :: "'b Keeper \<Rightarrow> 'b Context \<Rightarrow> bytes \<Rightarrow> bool" where
  "HasSecretHashLock k ctx secretHashLock \<longleftrightarrow> KVStore ctx (KeyHTLC secretHashLock) \<noteq> None"

definition SetHTLC :: "'b Keeper \<Rightarrow> 'b Context \<Rightarrow> HTLC \<Rightarrow> bytes \<Rightarrow> 'b Context" where
  "SetHTLC k ctx htlc secretHashLock =
     (let bz = MarshalHTLC (cdc k) htlc
      in ctx\<lparr>KVStore := (KVStore ctx)(KeyHTLC secretHashLock \<mapsto> bz)\<rparr>)"

definition GetHTLC :: "'b Keeper \<Rightarrow> 'b Context \<Rightarrow> bytes \<Rightarrow> failure + HTLC" where
  "GetHTLC k ctx secretHashLock =
     (case KVStore ctx (KeyHTLC secretHashLock) of
        None \<Rightarrow>
          Inl (Error (ErrInvalidSecretHashLock (codespace k)
                 (''invalid secret hash lock: '' @ EncodeToString secretHashLock)))
      | Some bz \<Rightarrow>
          (case UnmarshalHTLC (cdc k) bz of
             None \<Rightarrow> Inl Panic
           | Some htlc \<Rightarrow> Inr htlc))"

definition AddHTLCToExpireQueue :: "'b Keeper \<Rightarrow> 'b Context \<Rightarrow> 64 word \<Rightarrow> bytes \<Rightarrow> 'b Context" where
  "AddHTLCToExpireQueue k ctx expireHeight secretHashLock =
     (let bz = MarshalBytes (cdc k) secretHashLock
      in ctx\<lparr>KVStore := (KVStore ctx)(KeyHTLCExpireQueue expireHeight secretHashLock \<mapsto> bz)\<rparr>)"

definition DeleteHTLCFromExpireQueue ::
  "'b Keeper \<Rightarrow> 'b Context \<Rightarrow> 64 word \<Rightarrow> bytes \<Rightarrow> 'b Context" where
  "DeleteHTLCFromExpireQueue k ctx expireHeight secretHashLock =
     ctx\<lparr>KVStore := (KVStore ctx)(KeyHTLCExpireQueue expireHeight secretHashLock := None)\<rparr>"

text \<open>
  The three operations (lines 47-76, 78-118, 120-152). Each returns the context it
  leaves together with its tags or its failure, so that a failed call shows what it
  changed. The steps are in the order of the source: the checks, the transfer, then the
  writes to the store.

  \<open>CreateHTLC\<close> and \<open>RefundHTLC\<close> only read the hash lock they are given, so they take
  its bytes. \<open>ClaimHTLC\<close> passes the secret to \<open>GetSecretHashLock\<close>, which may write into
  the secret's array, so it takes the heap and the two slices and returns the heap it
  leaves. It reads the hash lock before that call, for the key of the record it gets,
  and after it: in the comparison of line 92, which \<^verbatim>\<open>bytes.Equal\<close> makes once
  \<open>GetSecretHashLock\<close> has returned, for the key it writes to and for the tags.
\<close>

definition CreateHTLC ::
  "'b Keeper \<Rightarrow> 'b Context \<Rightarrow> HTLC \<Rightarrow> bytes \<Rightarrow> 'b Context \<times> (failure + Tags)" where
  "CreateHTLC k ctx htlc secretHashLock =
     (if HasSecretHashLock k ctx secretHashLock then
        (ctx, Inl (Error (ErrSecretHashLockAlreadyExists DefaultCodespace
                 (''the secret hash lock already exists: '' @ EncodeToString secretHashLock))))
      else
        let htlcAddr = getHTLCAddress (Denom (OutAmount htlc)) in
        case SendCoins k ctx (Sender htlc) htlcAddr [OutAmount htlc] of
          (ctx1, Some err) \<Rightarrow> (ctx1, Inl (Error err))
        | (ctx1, None) \<Rightarrow>
            let ctx2 = AppendCoinFlowTag ctx1 (AddressString (Sender htlc)) (AddressString htlcAddr)
                         (CoinString (OutAmount htlc)) CoinHTLCCreateFlow '''';
                ctx3 = SetHTLC k ctx2 htlc secretHashLock;
                ctx4 = AddHTLCToExpireQueue k ctx3 (ExpireHeight htlc) secretHashLock;
                createTags =
                  [(TagSender, AddressString (Sender htlc)),
                   (TagReceiver, AddressString (Receiver htlc)),
                   (TagReceiverOnOtherChain, Raw (ReceiverOnOtherChain htlc)),
                   (TagSecretHashLock, Text (EncodeToString secretHashLock))]
            in (ctx4, Inr createTags))"

definition ClaimHTLC ::
  "'b Keeper \<Rightarrow> 'b Context \<Rightarrow> heap \<Rightarrow> slice \<Rightarrow> slice
     \<Rightarrow> 'b Context \<times> heap \<times> (failure + Tags)" where
  "ClaimHTLC k ctx h secret secretHashLock =
     (case GetHTLC k ctx (slice_bytes h secretHashLock) of
        Inl err \<Rightarrow> (ctx, h, Inl err)
      | Inr htlc \<Rightarrow>
          if State htlc \<noteq> StateOpen then
            (ctx, h, Inl (Error (ErrStateIsNotOpen (codespace k) ''HTLC state is not Open.'')))
          else
            (case GetSecretHashLock k h secret (Timestamp htlc) of
               (h1, digest) \<Rightarrow>
                 if digest \<noteq> slice_bytes h1 secretHashLock then
                   (ctx, h1, Inl (Error (ErrInvalidSecret (codespace k)
                      (''invalid secret: '' @ EncodeToString (slice_bytes h1 secret)))))
                 else
                   let htlcAddr = getHTLCAddress (Denom (OutAmount htlc)) in
                   (case SendCoins k ctx htlcAddr (Receiver htlc) [OutAmount htlc] of
                      (ctx1, Some err) \<Rightarrow> (ctx1, h1, Inl (Error err))
                    | (ctx1, None) \<Rightarrow>
                        let htlc' = htlc\<lparr>Secret := slice_bytes h1 secret,
                                        State := StateCompleted\<rparr>;
                            ctx2 = SetHTLC k ctx1 htlc' (slice_bytes h1 secretHashLock);
                            ctx3 = AppendCoinFlowTag ctx2 (AddressString htlcAddr)
                                     (AddressString (Receiver htlc'))
                                     (CoinString (OutAmount htlc')) CoinHTLCClaimFlow '''';
                            calimTags =
                              [(TagSender, AddressString (Sender htlc')),
                               (TagReceiver, AddressString (Receiver htlc')),
                               (TagSecretHashLock,
                                  Text (EncodeToString (slice_bytes h1 secretHashLock))),
                               (TagSecret, Text (EncodeToString (slice_bytes h1 secret)))]
                        in (ctx3, h1, Inr calimTags))))"

definition RefundHTLC ::
  "'b Keeper \<Rightarrow> 'b Context \<Rightarrow> bytes \<Rightarrow> 'b Context \<times> (failure + Tags)" where
  "RefundHTLC k ctx secretHashLock =
     (case GetHTLC k ctx secretHashLock of
        Inl err \<Rightarrow> (ctx, Inl err)
      | Inr htlc \<Rightarrow>
          if State htlc \<noteq> StateExpired then
            (ctx, Inl (Error (ErrStateIsNotOpen (codespace k) ''HTLC state is not Expired.'')))
          else
            let htlcAddr = getHTLCAddress (Denom (OutAmount htlc)) in
            (case SendCoins k ctx htlcAddr (Sender htlc) [OutAmount htlc] of
              (ctx1, Some err) \<Rightarrow> (ctx1, Inl (Error err))
            | (ctx1, None) \<Rightarrow>
                let htlc' = htlc\<lparr>State := StateRefunded\<rparr>;
                    ctx2 = SetHTLC k ctx1 htlc' secretHashLock;
                    ctx3 = AppendCoinFlowTag ctx2 (AddressString htlcAddr)
                             (AddressString (Sender htlc')) (CoinString (OutAmount htlc'))
                             CoinHTLCRefundFlow '''';
                    refundTags =
                      [(TagSender, AddressString (Sender htlc')),
                       (TagSecretHashLock, Text (EncodeToString secretHashLock))]
                in (ctx3, Inr refundTags)))"


section \<open>The invariant of the records\<close>

text \<open>
  The codec decodes a record from its own encoding of it. The codec is a parameter of
  the keeper, so a statement about a record read back from the store says where it
  needs this.
\<close>

definition RoundTrips :: "Codec \<Rightarrow> HTLC \<Rightarrow> bool" where
  "RoundTrips c htlc \<longleftrightarrow> UnmarshalHTLC c (MarshalHTLC c htlc) = Some htlc"

text \<open>Section 3 of the spec: the secret of a record is non-empty iff its state is
  \<open>Completed\<close>; the records of a store are those \<open>GetHTLC\<close> reads, at any digest.\<close>

definition SecretIffCompleted :: "HTLC \<Rightarrow> bool" where
  "SecretIffCompleted htlc \<longleftrightarrow> (Secret htlc \<noteq> []) = (State htlc = StateCompleted)"

definition StoreInvariant :: "'b Keeper \<Rightarrow> 'b Context \<Rightarrow> bool" where
  "StoreInvariant k ctx \<longleftrightarrow>
     (\<forall>d htlc. GetHTLC k ctx d = Inr htlc \<longrightarrow> SecretIffCompleted htlc)"


section \<open>An example keeper\<close>

text \<open>
  A codec and a bank keeper to run the keeper on: a codec that writes each field of a
  record behind its length, and a ledger of balances per address and denomination
  whose transfer fails when the sender's balance is too small.
\<close>

definition BigEndianUint :: "bytes \<Rightarrow> 'a::len word" where
  "BigEndianUint b = foldl (\<lambda>acc v. push_bit 8 acc OR ucast v) 0 b"

definition put_bytes :: "bytes \<Rightarrow> bytes" where
  "put_bytes b = Uint64ToBigEndian (word_of_nat (length b)) @ b"

definition get_bytes :: "bytes \<Rightarrow> (bytes \<times> bytes) option" where
  "get_bytes bz =
     (if length bz < 8 then None
      else let n = unat (BigEndianUint (take 8 bz) :: 64 word); r = drop 8 bz
           in if length r < n then None else Some (take n r, drop n r))"

definition put_int :: "int \<Rightarrow> bytes" where
  "put_int i = map (\<lambda>n. ucast (drop_bit (8 * (31 - n)) (word_of_int i :: 256 word))) [0..<32]"

definition get_int :: "bytes \<Rightarrow> int" where
  "get_int b = sint (BigEndianUint b :: 256 word)"

definition put_state :: "HTLCState \<Rightarrow> byte" where
  "put_state s =
     (case s of StateOpen \<Rightarrow> 0 | StateCompleted \<Rightarrow> 1 | StateExpired \<Rightarrow> 2 | StateRefunded \<Rightarrow> 3)"

definition get_state :: "byte \<Rightarrow> HTLCState option" where
  "get_state v =
     (if v = 0 then Some StateOpen else if v = 1 then Some StateCompleted
      else if v = 2 then Some StateExpired else if v = 3 then Some StateRefunded else None)"

definition example_MarshalHTLC :: "HTLC \<Rightarrow> bytes" where
  "example_MarshalHTLC h =
     put_bytes (Sender h) @ put_bytes (Receiver h) @ put_bytes (ReceiverOnOtherChain h)
       @ put_bytes (bytes_of_string (Denom (OutAmount h))) @ put_bytes (Secret h)
       @ put_int (Amount (OutAmount h))
       @ Uint64ToBigEndian (Timestamp h) @ Uint64ToBigEndian (ExpireHeight h)
       @ [put_state (State h)]"

definition example_UnmarshalHTLC :: "bytes \<Rightarrow> HTLC option" where
  "example_UnmarshalHTLC bz =
     (case get_bytes bz of None \<Rightarrow> None | Some (sender, r1) \<Rightarrow>
     (case get_bytes r1 of None \<Rightarrow> None | Some (receiver, r2) \<Rightarrow>
     (case get_bytes r2 of None \<Rightarrow> None | Some (other, r3) \<Rightarrow>
     (case get_bytes r3 of None \<Rightarrow> None | Some (denom, r4) \<Rightarrow>
     (case get_bytes r4 of None \<Rightarrow> None | Some (secret, r5) \<Rightarrow>
        if length r5 \<noteq> 49 then None
        else (case get_state (r5 ! 48) of None \<Rightarrow> None | Some st \<Rightarrow>
          Some \<lparr>Sender = sender, Receiver = receiver, ReceiverOnOtherChain = other,
                OutAmount = \<lparr>Denom = map (\<lambda>v. char_of (unat v)) denom,
                             Amount = get_int (take 32 r5)\<rparr>,
                Secret = secret,
                Timestamp = BigEndianUint (take 8 (drop 32 r5)),
                ExpireHeight = BigEndianUint (take 8 (drop 40 r5)),
                State = st\<rparr>))))))"

definition example_cdc :: Codec where
  "example_cdc =
     \<lparr>MarshalHTLC = example_MarshalHTLC, MarshalBytes = put_bytes,
      UnmarshalHTLC = example_UnmarshalHTLC\<rparr>"

type_synonym ledger = "AccAddress \<times> string \<Rightarrow> int"

definition ledger_send :: "AccAddress \<Rightarrow> AccAddress \<Rightarrow> Coin \<Rightarrow> ledger \<Rightarrow> ledger" where
  "ledger_send fromAddr toAddr c l =
     (let l1 = l((fromAddr, Denom c) := l (fromAddr, Denom c) - Amount c)
      in l1((toAddr, Denom c) := l1 (toAddr, Denom c) + Amount c))"

definition ledger_SendCoins :: "ledger BankKeeper" where
  "ledger_SendCoins l fromAddr toAddr amt =
     (if list_all (\<lambda>c. 0 \<le> Amount c \<and> Amount c \<le> l (fromAddr, Denom c)) amt
      then (fold (ledger_send fromAddr toAddr) amt l, None)
      else (l, Some ''insufficient coins''))"

definition example_keeper :: "ledger Keeper" where
  "example_keeper = \<lparr>cdc = example_cdc, bk = ledger_SendCoins, codespace = ''htlc''\<rparr>"

text \<open>A contract of 100 \<open>iris-atto\<close>, its secret and its hash lock; the same contract
  locked by the empty secret.\<close>

definition example_htlc :: HTLC where
  "example_htlc =
     \<lparr>Sender = [1, 2, 3], Receiver = [4, 5, 6], ReceiverOnOtherChain = [7],
      OutAmount = \<lparr>Denom = ''iris-atto'', Amount = 100\<rparr>, Secret = [],
      Timestamp = 1580000000, ExpireHeight = 1000, State = StateOpen\<rparr>"

definition example_secret :: bytes where
  "example_secret = [0x5f, 0x5f, 0x61, 0x62, 0x63, 0x5f, 0x5f]"

definition example_lock :: bytes where
  "example_lock = SHA256 (example_secret @ Uint64ToBigEndian (Timestamp example_htlc))"

definition empty_secret_lock :: bytes where
  "empty_secret_lock = SHA256 (Uint64ToBigEndian (Timestamp example_htlc))"

text \<open>
  A second codec, which writes the hash lock of an index entry as it is, without its
  length, and a hash lock whose bytes are the encoding of a record: the example contract,
  \<open>Open\<close>, with the secret in it.
\<close>

definition bare_cdc :: Codec where
  "bare_cdc =
     \<lparr>MarshalHTLC = example_MarshalHTLC, MarshalBytes = (\<lambda>b. b),
      UnmarshalHTLC = example_UnmarshalHTLC\<rparr>"

definition bare_keeper :: "ledger Keeper" where
  "bare_keeper = \<lparr>cdc = bare_cdc, bk = ledger_SendCoins, codespace = ''htlc''\<rparr>"

definition record_lock :: bytes where
  "record_lock = example_MarshalHTLC (example_htlc\<lparr>Secret := example_secret\<rparr>)"

text \<open>
  Heaps and slices. In \<open>two_arrays a b\<close> the secret is the whole of array 0 and the hash
  lock the whole of array 1, each with no capacity to spare. In \<open>one_array a b\<close> both are
  cut from one buffer: the secret is \<^verbatim>\<open>buf[:7]\<close>, with the rest of the buffer as its
  capacity, and the hash lock is \<^verbatim>\<open>buf[7:]\<close>. The last slice is \<^verbatim>\<open>buf[:1]\<close> of a
  buffer of nine bytes.
\<close>

definition two_arrays :: "bytes \<Rightarrow> bytes \<Rightarrow> heap" where
  "two_arrays a b = (\<lambda>_. [])(0 := a, 1 := b)"

definition secret_slice :: slice where
  "secret_slice = \<lparr>Data = 0, Offset = 0, Len = 7, Cap = 7\<rparr>"

definition empty_slice :: slice where
  "empty_slice = \<lparr>Data = 0, Offset = 0, Len = 0, Cap = 0\<rparr>"

definition lock_slice :: slice where
  "lock_slice = \<lparr>Data = 1, Offset = 0, Len = 32, Cap = 32\<rparr>"

definition one_array :: "bytes \<Rightarrow> bytes \<Rightarrow> heap" where
  "one_array a b = (\<lambda>_. [])(0 := a @ b)"

definition shared_secret_slice :: slice where
  "shared_secret_slice = \<lparr>Data = 0, Offset = 0, Len = 7, Cap = 39\<rparr>"

definition shared_lock_slice :: slice where
  "shared_lock_slice = \<lparr>Data = 0, Offset = 7, Len = 32, Cap = 32\<rparr>"

definition roomy_slice :: slice where
  "roomy_slice = \<lparr>Data = 0, Offset = 0, Len = 1, Cap = 9\<rparr>"

text \<open>Ledgers: everyone owns 1000 of everything, or no one owns anything. Contexts:
  an empty store, and the store that holds one contract and its entry in the expiration
  index, as \<open>CreateHTLC\<close> leaves them.\<close>

definition full_ledger :: ledger where
  "full_ledger = (\<lambda>_. 1000)"

definition empty_ledger :: ledger where
  "empty_ledger = (\<lambda>_. 0)"

definition empty_ctx :: "ledger \<Rightarrow> ledger Context" where
  "empty_ctx l = \<lparr>KVStore = Map.empty, bank = l, CoinFlowTags = [], transfers = []\<rparr>"

definition stored_ctx :: "ledger \<Rightarrow> HTLC \<Rightarrow> bytes \<Rightarrow> ledger Context" where
  "stored_ctx l htlc secretHashLock =
     \<lparr>KVStore = [KeyHTLC secretHashLock \<mapsto> example_MarshalHTLC htlc,
                  KeyHTLCExpireQueue (ExpireHeight htlc) secretHashLock \<mapsto> put_bytes secretHashLock],
      bank = l, CoinFlowTags = [], transfers = []\<rparr>"


section \<open>What an append changes\<close>

text \<open>
  An append keeps the length of every array. It changes no byte of a slice it spares,
  so none of the slice appended to; and for a slice that fits its array the result is
  the bytes of the slice followed by the bytes appended.
\<close>

lemma length_overwrite: "length (overwrite a p xs) = length a"
  by (simp add: overwrite_def)

lemma nth_overwrite:
  "i < length a \<Longrightarrow>
   overwrite a p xs ! i = (if p \<le> i \<and> i < p + length xs then xs ! (i - p) else a ! i)"
  by (auto simp: overwrite_def nth_append min_def)

lemma take_drop_cong:
  assumes "length a' = length a"
    and "\<And>i. i < length a \<Longrightarrow> p \<le> i \<Longrightarrow> i < p + l \<Longrightarrow> a' ! i = a ! i"
  shows "take l (drop p a') = take l (drop p a)"
proof (rule nth_equalityI)
  show "length (take l (drop p a')) = length (take l (drop p a))"
    using assms(1) by simp
next
  fix i assume "i < length (take l (drop p a'))"
  then have "i < l" "p + i < length a" using assms(1) by auto
  then show "take l (drop p a') ! i = take l (drop p a) ! i"
    using assms by simp
qed

lemma slice_bytes_append_slice:
  assumes "append_spares s (length xs) t"
  shows "slice_bytes (fst (append_slice h s xs)) t = slice_bytes h t"
proof (cases "Len s + length xs \<le> Cap s \<and> Data t = Data s")
  case False
  then show ?thesis by (auto simp: append_slice_def slice_bytes_def Let_def)
next
  case True
  with assms have d: "Offset t + Len t \<le> Offset s + Len s \<or>
      Offset s + Len s + length xs \<le> Offset t"
    by (auto simp: append_spares_def)
  have "take (Len t) (drop (Offset t) (overwrite (h (Data s)) (Offset s + Len s) xs)) =
        take (Len t) (drop (Offset t) (h (Data s)))"
    using d by (intro take_drop_cong) (auto simp: length_overwrite nth_overwrite)
  with True show ?thesis by (simp add: append_slice_def slice_bytes_def Let_def)
qed

lemma append_spares_self: "append_spares s n s"
  by (simp add: append_spares_def)

lemma length_slice_bytes_append_slice:
  "length (slice_bytes (fst (append_slice h s xs)) t) = length (slice_bytes h t)"
  by (simp add: append_slice_def slice_bytes_def Let_def length_overwrite)

lemma append_slice_bytes:
  assumes "valid_slice h s"
  shows "snd (append_slice h s xs) = slice_bytes h s @ xs"
proof (cases "Len s + length xs \<le> Cap s")
  case False
  then show ?thesis by (simp add: append_slice_def)
next
  case True
  let ?a = "h (Data s)"
  let ?p = "Offset s + Len s"
  from True assms have fit: "?p + length xs \<le> length ?a"
    by (simp add: valid_slice_def)
  then have o: "overwrite ?a ?p xs = take ?p ?a @ xs @ drop (?p + length xs) ?a"
    by (simp add: overwrite_def)
  have "take (Len s + length xs) (drop (Offset s) (overwrite ?a ?p xs)) =
        take (Len s) (drop (Offset s) ?a) @ xs"
    using fit by (simp add: o drop_take)
  with True show ?thesis by (simp add: append_slice_def slice_bytes_def Let_def)
qed

lemma append_slice_no_room:
  "Cap s < Len s + length xs \<Longrightarrow> append_slice h s xs = (h, slice_bytes h s @ xs)"
  by (simp add: append_slice_def)


section \<open>Keys and encodings\<close>

lemma length_Uint32ToBigEndian: "length (Uint32ToBigEndian v) = 4"
  by (simp add: Uint32ToBigEndian_def)

lemma length_Uint64ToBigEndian: "length (Uint64ToBigEndian v) = 8"
  by (simp add: Uint64ToBigEndian_def)

lemma length_SHA256: "length (SHA256 m) = 32"
  by (simp add: SHA256_def Let_def length_Uint32ToBigEndian split: prod.splits)

text \<open>\<open>GetSecretHashLock\<close>: its digest, and the heap it leaves.\<close>

lemma fst_GetSecretHashLock:
  "fst (GetSecretHashLock k h secret timestamp) =
     fst (append_slice h secret (Uint64ToBigEndian timestamp))"
  by (simp add: GetSecretHashLock_def split: prod.splits)

lemma length_GetSecretHashLock: "length (snd (GetSecretHashLock k h secret timestamp)) = 32"
  by (simp add: GetSecretHashLock_def length_SHA256 split: prod.splits)

lemma GetSecretHashLock_digest:
  "valid_slice h secret \<Longrightarrow>
   snd (GetSecretHashLock k h secret timestamp) =
     SHA256 (slice_bytes h secret @ Uint64ToBigEndian timestamp)"
  using append_slice_bytes [of h secret "Uint64ToBigEndian timestamp"]
  by (cases "append_slice h secret (Uint64ToBigEndian timestamp)")
    (simp add: GetSecretHashLock_def)

lemma GetSecretHashLock_no_room:
  "Cap secret < Len secret + 8 \<Longrightarrow>
   GetSecretHashLock k h secret timestamp =
     (h, SHA256 (slice_bytes h secret @ Uint64ToBigEndian timestamp))"
  by (simp add: GetSecretHashLock_def append_slice_no_room length_Uint64ToBigEndian)

lemma GetSecretHashLock_spares:
  "append_spares secret 8 t \<Longrightarrow>
   slice_bytes (fst (GetSecretHashLock k h secret timestamp)) t = slice_bytes h t"
  by (simp add: fst_GetSecretHashLock slice_bytes_append_slice length_Uint64ToBigEndian)

lemma GetSecretHashLock_keeps_secret:
  "slice_bytes (fst (GetSecretHashLock k h secret timestamp)) secret = slice_bytes h secret"
  by (rule GetSecretHashLock_spares) (rule append_spares_self)

lemma GetSecretHashLock_keeps_length:
  "length (slice_bytes (fst (GetSecretHashLock k h secret timestamp)) t) =
     length (slice_bytes h t)"
  by (simp add: fst_GetSecretHashLock length_slice_bytes_append_slice)

lemma KeyHTLC_eq_iff: "KeyHTLC a = KeyHTLC b \<longleftrightarrow> a = b"
  by (simp add: KeyHTLC_def)

lemma length_KeyHTLC: "length (KeyHTLC d) = 5 + length d"
  by (simp add: KeyHTLC_def PrefixHTLC_def bytes_of_string_def)

lemma length_KeyHTLCExpireQueue: "length (KeyHTLCExpireQueue h d) = 20 + length d"
  by (simp add: KeyHTLCExpireQueue_def PrefixHTLCExpireQueue_def bytes_of_string_def
      length_Uint64ToBigEndian)

lemma KeyHTLC_neq_KeyHTLCExpireQueue:
  "length d \<noteq> 15 + length d' \<Longrightarrow> KeyHTLC d \<noteq> KeyHTLCExpireQueue h d'"
proof
  assume len: "length d \<noteq> 15 + length d'" and eq: "KeyHTLC d = KeyHTLCExpireQueue h d'"
  from eq have "length (KeyHTLC d) = length (KeyHTLCExpireQueue h d')" by simp
  with len show False by (simp add: length_KeyHTLC length_KeyHTLCExpireQueue)
qed

lemma Uint64ToBigEndian_inj: 
  assumes "Uint64ToBigEndian v = Uint64ToBigEndian w" shows "v = w"
proof (rule bit_word_eqI)
  fix n assume n: "n < LENGTH(64)"
  have b: "(ucast (drop_bit 56 v) :: byte) = ucast (drop_bit 56 w)"
    "(ucast (drop_bit 48 v) :: byte) = ucast (drop_bit 48 w)"
    "(ucast (drop_bit 40 v) :: byte) = ucast (drop_bit 40 w)"
    "(ucast (drop_bit 32 v) :: byte) = ucast (drop_bit 32 w)"
    "(ucast (drop_bit 24 v) :: byte) = ucast (drop_bit 24 w)"
    "(ucast (drop_bit 16 v) :: byte) = ucast (drop_bit 16 w)"
    "(ucast (drop_bit 8 v) :: byte) = ucast (drop_bit 8 w)"
    "(ucast v :: byte) = ucast w"
    using assms by (simp_all add: Uint64ToBigEndian_def)
  have c: "\<And>i u. i + (n mod 8) = n \<Longrightarrow> bit (u :: 64 word) n = bit (ucast (drop_bit i u) :: byte) (n mod 8)"
  proof -
    fix i and u :: "64 word" assume "i + n mod 8 = n"
    moreover have "n mod 8 < Suc (Suc (Suc (Suc (Suc (Suc (Suc (Suc 0)))))))"
    proof -
      have e: "Suc (Suc (Suc (Suc (Suc (Suc (Suc (Suc 0))))))) = 8" by simp
      show ?thesis unfolding e by simp
    qed
    ultimately show "bit u n = bit (ucast (drop_bit i u) :: byte) (n mod 8)"
      by (simp add: bit_ucast_iff bit_drop_bit_eq add.commute)
  qed
  from n have "n div 8 < 8" by simp
  then consider "n div 8 = 0" | "n div 8 = 1" | "n div 8 = 2" | "n div 8 = 3"
    | "n div 8 = 4" | "n div 8 = 5" | "n div 8 = 6" | "n div 8 = 7" by linarith
  then show "bit v n = bit w n"
  proof cases
    case 1 then have "0 + n mod 8 = n" by presburger
    from c[OF this, of v] c[OF this, of w] b show ?thesis by simp
  next
    case 2 then have "8 + n mod 8 = n" by presburger
    from c[OF this, of v] c[OF this, of w] b show ?thesis by simp
  next
    case 3 then have "16 + n mod 8 = n" by presburger
    from c[OF this, of v] c[OF this, of w] b show ?thesis by simp
  next
    case 4 then have "24 + n mod 8 = n" by presburger
    from c[OF this, of v] c[OF this, of w] b show ?thesis by simp
  next
    case 5 then have "32 + n mod 8 = n" by presburger
    from c[OF this, of v] c[OF this, of w] b show ?thesis by simp
  next
    case 6 then have "40 + n mod 8 = n" by presburger
    from c[OF this, of v] c[OF this, of w] b show ?thesis by simp
  next
    case 7 then have "48 + n mod 8 = n" by presburger
    from c[OF this, of v] c[OF this, of w] b show ?thesis by simp
  next
    case 8 then have "56 + n mod 8 = n" by presburger
    from c[OF this, of v] c[OF this, of w] b show ?thesis by simp
  qed
qed

lemma KeyHTLCExpireQueue_eq_iff:
  "KeyHTLCExpireQueue h d = KeyHTLCExpireQueue h' d' \<longleftrightarrow> h = h' \<and> d = d'"
  by (auto simp: KeyHTLCExpireQueue_def length_Uint64ToBigEndian dest: Uint64ToBigEndian_inj)

text \<open>The bytes of \<open>Uint64ToBigEndian\<close> are the base-256 digits of the number, the most
  significant first.\<close>

lemma unat_drop_bit_div: "unat (drop_bit i (x :: 64 word)) = unat x div 2 ^ i"
  by (subst unat_drop_bit_eq) (rule drop_bit_eq_div)

lemma unat_byte_of_word: "unat (ucast (x :: 64 word) :: byte) = unat x mod 256"
  by (simp add: unsigned_ucast_eq take_bit_eq_mod)

lemma base256_step:
  fixes n :: nat
  shows "256 * (n div 2 ^ (i + 8)) + n div 2 ^ i mod 256 = n div 2 ^ i"
proof -
  have "n div 2 ^ (i + 8) = n div 2 ^ i div 256"
    by (simp add: power_add div_mult2_eq)
  then show ?thesis by simp
qed

lemma Uint64ToBigEndian_value:
  "foldl (\<lambda>acc v. 256 * acc + unat v) 0 (Uint64ToBigEndian x) = unat x"
proof -
  define n where "n = unat x"
  have top: "n div 2 ^ 64 = 0"
    using unsigned_less [of x, where ?'a = nat] by (simp add: n_def)
  have s: "256 * 0 + n div 2 ^ 56 mod 256 = n div 2 ^ 56"
    "256 * (n div 2 ^ 56) + n div 2 ^ 48 mod 256 = n div 2 ^ 48"
    "256 * (n div 2 ^ 48) + n div 2 ^ 40 mod 256 = n div 2 ^ 40"
    "256 * (n div 2 ^ 40) + n div 2 ^ 32 mod 256 = n div 2 ^ 32"
    "256 * (n div 2 ^ 32) + n div 2 ^ 24 mod 256 = n div 2 ^ 24"
    "256 * (n div 2 ^ 24) + n div 2 ^ 16 mod 256 = n div 2 ^ 16"
    "256 * (n div 2 ^ 16) + n div 2 ^ 8 mod 256 = n div 2 ^ 8"
    "256 * (n div 2 ^ 8) + n mod 256 = n"
    using base256_step [of n 56] top apply simp
    using base256_step [of n 48] apply simp
    using base256_step [of n 40] apply simp
    using base256_step [of n 32] apply simp
    using base256_step [of n 24] apply simp
    using base256_step [of n 16] apply simp
    using base256_step [of n 8] apply simp
    using base256_step [of n 0] apply simp
    done
  have "foldl (\<lambda>acc v. 256 * acc + unat v) 0 (Uint64ToBigEndian x) =
    256 * (256 * (256 * (256 * (256 * (256 * (256 * (256 * 0 + n div 2 ^ 56 mod 256)
      + n div 2 ^ 48 mod 256) + n div 2 ^ 40 mod 256) + n div 2 ^ 32 mod 256)
      + n div 2 ^ 24 mod 256) + n div 2 ^ 16 mod 256) + n div 2 ^ 8 mod 256) + n mod 256"
    by (simp only: Uint64ToBigEndian_def foldl.simps unat_byte_of_word unat_drop_bit_div n_def)
  also have "\<dots> = n" by (simp only: s)
  finally show ?thesis by (simp only: n_def)
qed



section \<open>The operations, step by step\<close>

text \<open>
  What each operation returns, and the context it leaves, written out from the record
  that \<open>GetHTLC\<close> reads (for \<open>CreateHTLC\<close>: from the store) and from the bank keeper's
  answer.
\<close>

lemma ClaimHTLC_Inl:
  "GetHTLC k ctx (slice_bytes h lock) = Inl f \<Longrightarrow>
   ClaimHTLC k ctx h secret lock = (ctx, h, Inl f)"
  by (simp add: ClaimHTLC_def)

lemma ClaimHTLC_Inr:
  "GetHTLC k ctx (slice_bytes h lock) = Inr htlc \<Longrightarrow>
   GetSecretHashLock k h secret (Timestamp htlc) = (h1, digest) \<Longrightarrow>
   ClaimHTLC k ctx h secret lock =
     (if State htlc \<noteq> StateOpen then
        (ctx, h, Inl (Error (ErrStateIsNotOpen (codespace k) ''HTLC state is not Open.'')))
      else if digest \<noteq> slice_bytes h1 lock then
        (ctx, h1, Inl (Error (ErrInvalidSecret (codespace k)
           (''invalid secret: '' @ EncodeToString (slice_bytes h1 secret)))))
      else
        (case bk k (bank ctx) (getHTLCAddress (Denom (OutAmount htlc))) (Receiver htlc)
                [OutAmount htlc] of
           (b', Some err) \<Rightarrow>
             (ctx\<lparr>bank := b',
                  transfers := transfers ctx @
                    [(getHTLCAddress (Denom (OutAmount htlc)), Receiver htlc, [OutAmount htlc])]\<rparr>,
              h1, Inl (Error (ErrBank err)))
         | (b', None) \<Rightarrow>
             (ctx\<lparr>KVStore := (KVStore ctx)(KeyHTLC (slice_bytes h1 lock) \<mapsto>
                     MarshalHTLC (cdc k)
                       (htlc\<lparr>Secret := slice_bytes h1 secret, State := StateCompleted\<rparr>)),
                  bank := b',
                  CoinFlowTags := CoinFlowTags ctx @
                    [(AddressString (getHTLCAddress (Denom (OutAmount htlc))),
                      AddressString (Receiver htlc), CoinString (OutAmount htlc),
                      CoinHTLCClaimFlow, '''')],
                  transfers := transfers ctx @
                    [(getHTLCAddress (Denom (OutAmount htlc)), Receiver htlc, [OutAmount htlc])]\<rparr>,
              h1,
              Inr [(TagSender, AddressString (Sender htlc)),
                   (TagReceiver, AddressString (Receiver htlc)),
                   (TagSecretHashLock, Text (EncodeToString (slice_bytes h1 lock))),
                   (TagSecret, Text (EncodeToString (slice_bytes h1 secret)))])))"
  by (simp add: ClaimHTLC_def SendCoins_def SetHTLC_def AppendCoinFlowTag_def Let_def
      split: prod.splits option.splits)

lemma RefundHTLC_Inl:
  "GetHTLC k ctx shl = Inl f \<Longrightarrow> RefundHTLC k ctx shl = (ctx, Inl f)"
  by (simp add: RefundHTLC_def)

lemma RefundHTLC_Inr:
  "GetHTLC k ctx shl = Inr htlc \<Longrightarrow>
   RefundHTLC k ctx shl =
     (if State htlc \<noteq> StateExpired then
        (ctx, Inl (Error (ErrStateIsNotOpen (codespace k) ''HTLC state is not Expired.'')))
      else
        (case bk k (bank ctx) (getHTLCAddress (Denom (OutAmount htlc))) (Sender htlc) [OutAmount htlc] of
           (b', Some err) \<Rightarrow>
             (ctx\<lparr>bank := b',
                  transfers := transfers ctx @
                    [(getHTLCAddress (Denom (OutAmount htlc)), Sender htlc, [OutAmount htlc])]\<rparr>,
              Inl (Error (ErrBank err)))
         | (b', None) \<Rightarrow>
             (ctx\<lparr>KVStore := (KVStore ctx)(KeyHTLC shl \<mapsto>
                     MarshalHTLC (cdc k) (htlc\<lparr>State := StateRefunded\<rparr>)),
                  bank := b',
                  CoinFlowTags := CoinFlowTags ctx @
                    [(AddressString (getHTLCAddress (Denom (OutAmount htlc))),
                      AddressString (Sender htlc), CoinString (OutAmount htlc),
                      CoinHTLCRefundFlow, '''')],
                  transfers := transfers ctx @
                    [(getHTLCAddress (Denom (OutAmount htlc)), Sender htlc, [OutAmount htlc])]\<rparr>,
              Inr [(TagSender, AddressString (Sender htlc)),
                   (TagSecretHashLock, Text (EncodeToString shl))])))"
  by (simp add: RefundHTLC_def SendCoins_def SetHTLC_def AppendCoinFlowTag_def Let_def
      split: prod.splits option.splits)

lemma CreateHTLC_eq:
  "CreateHTLC k ctx htlc shl =
     (if KVStore ctx (KeyHTLC shl) \<noteq> None then
        (ctx, Inl (Error (ErrSecretHashLockAlreadyExists DefaultCodespace
                 (''the secret hash lock already exists: '' @ EncodeToString shl))))
      else
        (case bk k (bank ctx) (Sender htlc) (getHTLCAddress (Denom (OutAmount htlc))) [OutAmount htlc] of
           (b', Some err) \<Rightarrow>
             (ctx\<lparr>bank := b',
                  transfers := transfers ctx @
                    [(Sender htlc, getHTLCAddress (Denom (OutAmount htlc)), [OutAmount htlc])]\<rparr>,
              Inl (Error (ErrBank err)))
         | (b', None) \<Rightarrow>
             (ctx\<lparr>KVStore := (KVStore ctx)
                     (KeyHTLC shl \<mapsto> MarshalHTLC (cdc k) htlc,
                      KeyHTLCExpireQueue (ExpireHeight htlc) shl \<mapsto> MarshalBytes (cdc k) shl),
                  bank := b',
                  CoinFlowTags := CoinFlowTags ctx @
                    [(AddressString (Sender htlc),
                      AddressString (getHTLCAddress (Denom (OutAmount htlc))),
                      CoinString (OutAmount htlc), CoinHTLCCreateFlow, '''')],
                  transfers := transfers ctx @
                    [(Sender htlc, getHTLCAddress (Denom (OutAmount htlc)), [OutAmount htlc])]\<rparr>,
              Inr [(TagSender, AddressString (Sender htlc)),
                   (TagReceiver, AddressString (Receiver htlc)),
                   (TagReceiverOnOtherChain, Raw (ReceiverOnOtherChain htlc)),
                   (TagSecretHashLock, Text (EncodeToString shl))])))"
  by (simp add: CreateHTLC_def HasSecretHashLock_def SendCoins_def SetHTLC_def
      AddHTLCToExpireQueue_def AppendCoinFlowTag_def Let_def split: prod.splits option.splits)

text \<open>The store an operation leaves: the store before, or the store before with the
  keys it writes.\<close>

lemma CreateHTLC_store:
  "KVStore (fst (CreateHTLC k ctx htlc d)) = KVStore ctx \<or>
   KVStore (fst (CreateHTLC k ctx htlc d)) =
     (KVStore ctx)(KeyHTLC d \<mapsto> MarshalHTLC (cdc k) htlc,
                   KeyHTLCExpireQueue (ExpireHeight htlc) d \<mapsto> MarshalBytes (cdc k) d)"
  by (simp add: CreateHTLC_eq split: prod.splits option.splits)

lemma ClaimHTLC_store:
  "KVStore (fst (ClaimHTLC k ctx h secret lock)) = KVStore ctx \<or>
   (\<exists>htlc d. GetHTLC k ctx (slice_bytes h lock) = Inr htlc \<and>
      length d = length (slice_bytes h lock) \<and>
      KVStore (fst (ClaimHTLC k ctx h secret lock)) =
        (KVStore ctx)(KeyHTLC d \<mapsto>
           MarshalHTLC (cdc k) (htlc\<lparr>Secret := slice_bytes h secret, State := StateCompleted\<rparr>)))"
proof (cases "GetHTLC k ctx (slice_bytes h lock)")
  case (Inl f)
  then show ?thesis by (simp add: ClaimHTLC_Inl)
next
  case (Inr htlc)
  obtain h1 digest where g: "GetSecretHashLock k h secret (Timestamp htlc) = (h1, digest)"
    by (cases "GetSecretHashLock k h secret (Timestamp htlc)")
  then have h1: "h1 = fst (GetSecretHashLock k h secret (Timestamp htlc))" by simp
  have "length (slice_bytes h1 lock) = length (slice_bytes h lock)"
    "slice_bytes h1 secret = slice_bytes h secret"
    by (simp_all add: h1 GetSecretHashLock_keeps_length GetSecretHashLock_keeps_secret)
  then show ?thesis
    using Inr by (auto simp: ClaimHTLC_Inr [OF Inr g] split: prod.splits option.splits)
qed

lemma RefundHTLC_store:
  "KVStore (fst (RefundHTLC k ctx d)) = KVStore ctx \<or>
   (\<exists>h. GetHTLC k ctx d = Inr h \<and> State h = StateExpired \<and>
      KVStore (fst (RefundHTLC k ctx d)) =
        (KVStore ctx)(KeyHTLC d \<mapsto> MarshalHTLC (cdc k) (h\<lparr>State := StateRefunded\<rparr>)))"
proof (cases "GetHTLC k ctx d")
  case (Inl f)
  then show ?thesis by (simp add: RefundHTLC_Inl)
next
  case (Inr h)
  then show ?thesis by (simp add: RefundHTLC_Inr split: prod.splits option.splits)
qed


section \<open>The invariant, step by step\<close>

lemma StoreInvariant_same_store:
  "KVStore ctx' = KVStore ctx \<Longrightarrow> StoreInvariant k ctx \<Longrightarrow> StoreInvariant k ctx'"
  by (simp add: StoreInvariant_def GetHTLC_def)

lemma StoreInvariant_put:
  assumes inv: "StoreInvariant k ctx"
    and store: "KVStore ctx' = (KVStore ctx)(key \<mapsto> bz)"
    and ok: "\<forall>htlc. UnmarshalHTLC (cdc k) bz = Some htlc \<longrightarrow> SecretIffCompleted htlc"
  shows "StoreInvariant k ctx'"
  unfolding StoreInvariant_def
proof (intro allI impI)
  fix d htlc assume a: "GetHTLC k ctx' d = Inr htlc"
  show "SecretIffCompleted htlc"
  proof (cases "KeyHTLC d = key")
    case True
    with a store have "UnmarshalHTLC (cdc k) bz = Some htlc"
      by (simp add: GetHTLC_def split: option.splits)
    with ok show ?thesis by simp
  next
    case False
    with store have "GetHTLC k ctx' d = GetHTLC k ctx d"
      by (simp add: GetHTLC_def)
    with a inv show ?thesis by (auto simp: StoreInvariant_def)
  qed
qed

lemma StoreInvariant_put_record:
  assumes inv: "StoreInvariant k ctx"
    and store: "KVStore ctx' = (KVStore ctx)(key \<mapsto> MarshalHTLC (cdc k) htlc)"
    and rt: "RoundTrips (cdc k) htlc"
    and ok: "SecretIffCompleted htlc"
  shows "StoreInvariant k ctx'"
  using inv store
proof (rule StoreInvariant_put)
  show "\<forall>h. UnmarshalHTLC (cdc k) (MarshalHTLC (cdc k) htlc) = Some h \<longrightarrow> SecretIffCompleted h"
    using rt ok by (simp add: RoundTrips_def)
qed

lemma StoreInvariant_CreateHTLC:
  assumes inv: "StoreInvariant k ctx" and ok: "SecretIffCompleted htlc"
    and rt: "RoundTrips (cdc k) htlc"
    and entry: "\<forall>h. UnmarshalHTLC (cdc k) (MarshalBytes (cdc k) d) = Some h \<longrightarrow>
                  SecretIffCompleted h"
  shows "StoreInvariant k (fst (CreateHTLC k ctx htlc d))"
  using CreateHTLC_store [of k ctx htlc d]
proof
  assume "KVStore (fst (CreateHTLC k ctx htlc d)) = KVStore ctx"
  then show ?thesis using inv by (rule StoreInvariant_same_store)
next
  let ?mid = "ctx\<lparr>KVStore := (KVStore ctx)(KeyHTLC d \<mapsto> MarshalHTLC (cdc k) htlc)\<rparr>"
  assume s: "KVStore (fst (CreateHTLC k ctx htlc d)) =
     (KVStore ctx)(KeyHTLC d \<mapsto> MarshalHTLC (cdc k) htlc,
                   KeyHTLCExpireQueue (ExpireHeight htlc) d \<mapsto> MarshalBytes (cdc k) d)"
  have mid: "StoreInvariant k ?mid"
    by (rule StoreInvariant_put_record [where htlc = htlc and key = "KeyHTLC d", OF inv _ rt ok])
      simp
  show ?thesis
    by (rule StoreInvariant_put [where key = "KeyHTLCExpireQueue (ExpireHeight htlc) d"
          and bz = "MarshalBytes (cdc k) d", OF mid _ entry])
      (simp add: s)
qed

lemma StoreInvariant_ClaimHTLC:
  assumes inv: "StoreInvariant k ctx" and ne: "slice_bytes h secret \<noteq> []"
    and rt: "\<forall>htlc. GetHTLC k ctx (slice_bytes h lock) = Inr htlc \<longrightarrow>
               RoundTrips (cdc k) (htlc\<lparr>Secret := slice_bytes h secret, State := StateCompleted\<rparr>)"
  shows "StoreInvariant k (fst (ClaimHTLC k ctx h secret lock))"
  using ClaimHTLC_store [of k ctx h secret lock]
proof (elim disjE exE conjE)
  assume "KVStore (fst (ClaimHTLC k ctx h secret lock)) = KVStore ctx"
  then show ?thesis using inv by (rule StoreInvariant_same_store)
next
  fix htlc d assume g: "GetHTLC k ctx (slice_bytes h lock) = Inr htlc"
    and s: "KVStore (fst (ClaimHTLC k ctx h secret lock)) =
        (KVStore ctx)(KeyHTLC d \<mapsto>
           MarshalHTLC (cdc k) (htlc\<lparr>Secret := slice_bytes h secret, State := StateCompleted\<rparr>))"
  from rt g have "RoundTrips (cdc k)
      (htlc\<lparr>Secret := slice_bytes h secret, State := StateCompleted\<rparr>)"
    by simp
  with inv s show ?thesis
    by (rule StoreInvariant_put_record) (simp add: SecretIffCompleted_def ne)
qed

lemma StoreInvariant_RefundHTLC:
  assumes inv: "StoreInvariant k ctx"
    and rt: "\<forall>h. GetHTLC k ctx d = Inr h \<longrightarrow> RoundTrips (cdc k) (h\<lparr>State := StateRefunded\<rparr>)"
  shows "StoreInvariant k (fst (RefundHTLC k ctx d))"
  using RefundHTLC_store [of k ctx d]
proof (elim disjE exE conjE)
  assume "KVStore (fst (RefundHTLC k ctx d)) = KVStore ctx"
  then show ?thesis using inv by (rule StoreInvariant_same_store)
next
  fix h assume g: "GetHTLC k ctx d = Inr h" and e: "State h = StateExpired"
    and s: "KVStore (fst (RefundHTLC k ctx d)) =
        (KVStore ctx)(KeyHTLC d \<mapsto> MarshalHTLC (cdc k) (h\<lparr>State := StateRefunded\<rparr>))"
  from rt g have r: "RoundTrips (cdc k) (h\<lparr>State := StateRefunded\<rparr>)" by simp
  from inv g have "SecretIffCompleted h" by (auto simp: StoreInvariant_def)
  with e have "SecretIffCompleted (h\<lparr>State := StateRefunded\<rparr>)"
    by (simp add: SecretIffCompleted_def)
  with inv s r show ?thesis by (rule StoreInvariant_put_record)
qed


section \<open>The example keeper at work\<close>

lemma example_keeper_simps:
  "cdc example_keeper = example_cdc" "bk example_keeper = ledger_SendCoins"
  "codespace example_keeper = ''htlc''"
  by (simp_all add: example_keeper_def)

lemma example_cdc_simps:
  "MarshalHTLC example_cdc = example_MarshalHTLC" "MarshalBytes example_cdc = put_bytes"
  "UnmarshalHTLC example_cdc = example_UnmarshalHTLC"
  by (simp_all add: example_cdc_def)

lemma example_htlc_simps:
  "Sender example_htlc = [1, 2, 3]" "Receiver example_htlc = [4, 5, 6]"
  "ReceiverOnOtherChain example_htlc = [7]"
  "OutAmount example_htlc = \<lparr>Denom = ''iris-atto'', Amount = 100\<rparr>"
  "Secret example_htlc = []" "Timestamp example_htlc = 1580000000"
  "ExpireHeight example_htlc = 1000" "State example_htlc = StateOpen"
  by (simp_all add: example_htlc_def)

lemma example_decodes:
  "example_UnmarshalHTLC (example_MarshalHTLC example_htlc) = Some example_htlc"
  by code_simp

lemma example_decodes_expired:
  "example_UnmarshalHTLC (example_MarshalHTLC (example_htlc\<lparr>State := StateExpired\<rparr>))
     = Some (example_htlc\<lparr>State := StateExpired\<rparr>)"
  by code_simp

lemma example_decodes_refunded:
  "example_UnmarshalHTLC (example_MarshalHTLC (example_htlc\<lparr>State := StateRefunded\<rparr>))
     = Some (example_htlc\<lparr>State := StateRefunded\<rparr>)"
  by code_simp

lemma example_decodes_completed:
  "example_UnmarshalHTLC
     (example_MarshalHTLC (example_htlc\<lparr>Secret := example_secret, State := StateCompleted\<rparr>))
     = Some (example_htlc\<lparr>Secret := example_secret, State := StateCompleted\<rparr>)"
  by code_simp

lemma example_decodes_completed_empty:
  "example_UnmarshalHTLC
     (example_MarshalHTLC (example_htlc\<lparr>Secret := [], State := StateCompleted\<rparr>))
     = Some (example_htlc\<lparr>Secret := [], State := StateCompleted\<rparr>)"
  by code_simp

lemma example_decodes_open_secret:
  "example_UnmarshalHTLC (example_MarshalHTLC (example_htlc\<lparr>Secret := example_secret\<rparr>))
     = Some (example_htlc\<lparr>Secret := example_secret\<rparr>)"
  by code_simp

lemma bare_keeper_simps:
  "cdc bare_keeper = bare_cdc" "bk bare_keeper = ledger_SendCoins"
  "codespace bare_keeper = ''htlc''"
  "MarshalHTLC bare_cdc = example_MarshalHTLC" "MarshalBytes bare_cdc = (\<lambda>b. b)"
  "UnmarshalHTLC bare_cdc = example_UnmarshalHTLC"
  by (simp_all add: bare_keeper_def bare_cdc_def)

lemma record_lock_decodes:
  "example_UnmarshalHTLC record_lock = Some (example_htlc\<lparr>Secret := example_secret\<rparr>)"
  unfolding record_lock_def by (rule example_decodes_open_secret)

lemma GetHTLC_stored_ctx:
  "example_UnmarshalHTLC (example_MarshalHTLC htlc) = Some htlc \<Longrightarrow>
   GetHTLC example_keeper (stored_ctx l htlc d) d = Inr htlc"
  by (simp add: GetHTLC_def stored_ctx_def example_keeper_simps example_cdc_simps
      KeyHTLC_neq_KeyHTLCExpireQueue)

lemma stored_ctx_simps:
  "bank (stored_ctx l htlc d) = l" "transfers (stored_ctx l htlc d) = []"
  "CoinFlowTags (stored_ctx l htlc d) = []"
  "KVStore (stored_ctx l htlc d) =
     [KeyHTLC d \<mapsto> example_MarshalHTLC htlc,
      KeyHTLCExpireQueue (ExpireHeight htlc) d \<mapsto> put_bytes d]"
  by (simp_all add: stored_ctx_def)

lemma empty_ctx_simps:
  "bank (empty_ctx l) = l" "transfers (empty_ctx l) = []"
  "CoinFlowTags (empty_ctx l) = []" "KVStore (empty_ctx l) = Map.empty"
  by (simp_all add: empty_ctx_def)

lemma full_ledger_sends:
  "0 \<le> Amount c \<Longrightarrow> Amount c \<le> 1000 \<Longrightarrow>
   snd (ledger_SendCoins full_ledger a b [c]) = None"
  by (simp add: ledger_SendCoins_def full_ledger_def)

lemma empty_ledger_fails:
  "0 < Amount c \<Longrightarrow>
   ledger_SendCoins empty_ledger a b [c] = (empty_ledger, Some ''insufficient coins'')"
  by (simp add: ledger_SendCoins_def empty_ledger_def)

lemma CreateHTLC_example:
  assumes "OutAmount htlc = \<lparr>Denom = ''iris-atto'', Amount = 100\<rparr>"
  shows "CreateHTLC example_keeper (empty_ctx full_ledger) htlc d =
     (\<lparr>KVStore = [KeyHTLC d \<mapsto> example_MarshalHTLC htlc,
                   KeyHTLCExpireQueue (ExpireHeight htlc) d \<mapsto> put_bytes d],
       bank = ledger_send (Sender htlc) (getHTLCAddress ''iris-atto'')
                \<lparr>Denom = ''iris-atto'', Amount = 100\<rparr> full_ledger,
       CoinFlowTags = [(AddressString (Sender htlc), AddressString (getHTLCAddress ''iris-atto''),
                        CoinString \<lparr>Denom = ''iris-atto'', Amount = 100\<rparr>, CoinHTLCCreateFlow, '''')],
       transfers = [(Sender htlc, getHTLCAddress ''iris-atto'',
                     [\<lparr>Denom = ''iris-atto'', Amount = 100\<rparr>])]\<rparr>,
      Inr [(TagSender, AddressString (Sender htlc)),
           (TagReceiver, AddressString (Receiver htlc)),
           (TagReceiverOnOtherChain, Raw (ReceiverOnOtherChain htlc)),
           (TagSecretHashLock, Text (EncodeToString d))])"
  by (simp add: CreateHTLC_eq assms empty_ctx_def example_keeper_simps example_cdc_simps
      ledger_SendCoins_def full_ledger_def)

text \<open>The example heaps: what the slices show, and the hash lock of the secret.\<close>

lemma slice_bytes_two_arrays:
  "length a = 7 \<Longrightarrow> slice_bytes (two_arrays a b) secret_slice = a"
  "slice_bytes (two_arrays [] b) empty_slice = []"
  "length b = 32 \<Longrightarrow> slice_bytes (two_arrays a b) lock_slice = b"
  by (simp_all add: slice_bytes_def two_arrays_def secret_slice_def empty_slice_def
      lock_slice_def)

lemma example_lengths:
  "length example_secret = 7" "length example_lock = 32" "length empty_secret_lock = 32"
  by (simp_all add: example_secret_def example_lock_def empty_secret_lock_def length_SHA256)

lemma no_room_spares:
  "append_spares secret_slice 8 t" "append_spares empty_slice 8 t"
  by (simp_all add: append_spares_def secret_slice_def empty_slice_def)

lemma GetSecretHashLock_example:
  "GetSecretHashLock example_keeper (two_arrays example_secret b) secret_slice
     (Timestamp example_htlc) = (two_arrays example_secret b, example_lock)"
proof -
  have "Cap secret_slice < Len secret_slice + 8" by (simp add: secret_slice_def)
  then show ?thesis
    by (simp add: GetSecretHashLock_no_room slice_bytes_two_arrays example_lengths
        example_lock_def)
qed

lemma GetSecretHashLock_empty_example:
  "GetSecretHashLock example_keeper (two_arrays [] b) empty_slice
     (Timestamp example_htlc) = (two_arrays [] b, empty_secret_lock)"
proof -
  have "Cap empty_slice < Len empty_slice + 8" by (simp add: empty_slice_def)
  then show ?thesis
    by (simp add: GetSecretHashLock_no_room slice_bytes_two_arrays empty_secret_lock_def)
qed

lemma full_ledger_sends_example:
  "\<exists>b'. ledger_SendCoins full_ledger (getHTLCAddress ''iris-atto'') [4, 5, 6]
            [\<lparr>Denom = ''iris-atto'', Amount = 100\<rparr>] = (b', None)"
  by (simp add: ledger_SendCoins_def full_ledger_def)

lemma ClaimHTLC_example:
  "snd (snd (ClaimHTLC example_keeper (stored_ctx full_ledger example_htlc example_lock)
          (two_arrays example_secret example_lock) secret_slice lock_slice)) =
     Inr [(TagSender, AddressString [1, 2, 3]), (TagReceiver, AddressString [4, 5, 6]),
          (TagSecretHashLock, Text (EncodeToString example_lock)),
          (TagSecret, Text (EncodeToString example_secret))]"
proof -
  let ?ctx = "stored_ctx full_ledger example_htlc example_lock"
  let ?h = "two_arrays example_secret example_lock"
  have lock: "slice_bytes ?h lock_slice = example_lock"
    and secret: "slice_bytes ?h secret_slice = example_secret"
    by (simp_all add: slice_bytes_two_arrays example_lengths)
  have g: "GetHTLC example_keeper ?ctx (slice_bytes ?h lock_slice) = Inr example_htlc"
    unfolding lock by (rule GetHTLC_stored_ctx) (rule example_decodes)
  obtain b' where b: "ledger_SendCoins full_ledger (getHTLCAddress ''iris-atto'') [4, 5, 6]
                  [\<lparr>Denom = ''iris-atto'', Amount = 100\<rparr>] = (b', None)"
    using full_ledger_sends_example by blast
  show ?thesis
    using b by (simp add: ClaimHTLC_Inr [OF g GetSecretHashLock_example] lock secret
        example_htlc_simps example_keeper_simps stored_ctx_simps)
qed

lemma StoreInvariant_empty_ctx: "StoreInvariant example_keeper (empty_ctx l)"
  by (simp add: StoreInvariant_def GetHTLC_def empty_ctx_simps)

lemma example_queue_entry_no_record:
  assumes "length d = 32"
  shows "example_UnmarshalHTLC (put_bytes d) = None"
proof -
  have n: "unat (BigEndianUint (Uint64ToBigEndian 32) :: 64 word) = 32"
    by code_simp
  have "get_bytes (put_bytes d) = Some (d, [])"
    using assms by (simp add: get_bytes_def put_bytes_def length_Uint64ToBigEndian n)
  moreover have "get_bytes [] = None" by (simp add: get_bytes_def)
  ultimately show ?thesis by (simp add: example_UnmarshalHTLC_def)
qed

lemma StoreInvariant_stored_ctx:
  assumes "SecretIffCompleted htlc" "example_UnmarshalHTLC (example_MarshalHTLC htlc) = Some htlc"
    and "length d = 32"
  shows "StoreInvariant example_keeper (stored_ctx l htlc d)"
proof -
  have rt: "RoundTrips (cdc example_keeper) htlc"
    by (simp add: assms RoundTrips_def example_keeper_simps example_cdc_simps)
  have mid: "StoreInvariant example_keeper
          ((empty_ctx l)\<lparr>KVStore := [KeyHTLC d \<mapsto> MarshalHTLC (cdc example_keeper) htlc]\<rparr>)"
    by (rule StoreInvariant_put_record [where htlc = htlc and key = "KeyHTLC d",
          OF StoreInvariant_empty_ctx [of l] _ rt assms(1)])
      (simp add: empty_ctx_simps)
  show ?thesis
    by (rule StoreInvariant_put [where key = "KeyHTLCExpireQueue (ExpireHeight htlc) d"
          and bz = "put_bytes d", OF mid])
      (simp_all add: stored_ctx_simps example_keeper_simps example_cdc_simps
        example_queue_entry_no_record assms(3))
qed

text \<open>The hash function on the test vectors of the standard, and the digests of the
  examples.\<close>

lemma SHA256_abc:
  "EncodeToString (SHA256 (bytes_of_string ''abc'')) =
     ''ba7816bf8f01cfea414140de5dae2223b00361a396177a9cb410ff61f20015ad''"
  by code_simp

lemma SHA256_two_blocks:
  "EncodeToString
     (SHA256 (bytes_of_string ''abcdbcdecdefdefgefghfghighijhijkijkljklmklmnlmnomnopnopq'')) =
     ''248d6a61d20638b8e5c026930c3e6039a33ce45964ff2167f6ecedd419db06c1''"
  by code_simp

lemma example_lock_value:
  "EncodeToString example_lock =
     ''3261a444308dad5f4ba326b042beb6ca0891809ee5d6c38f493223133b6b5e45''"
  by code_simp

lemma empty_secret_lock_value:
  "EncodeToString empty_secret_lock =
     ''e64ffa33fcb454cbd7ea5111ffb55d7dc9ab8a29ac93c9e53797693bb923997e''"
  by code_simp

lemma getHTLCAddress_value:
  "EncodeToString (getHTLCAddress ''iris-atto'') = ''d94865d33f5d5fbb2b999f4a2b8ea9c52ef4b4c9''"
  by code_simp


section \<open>Claiming\<close>

text \<open>
  C1, as amended. Take a secret and a hash lock such that appending the eight bytes of
  the timestamp to the secret writes no byte of the hash lock (the secret has no room
  for them in its array, or they fall outside the hash lock). Then \<open>ClaimHTLC\<close>
  succeeds iff \<open>GetHTLC\<close> reads a record at the hash lock, the record is \<open>Open\<close>, the
  digest \<open>GetSecretHashLock\<close> gives for the secret and the record's timestamp is the
  hash lock, and the bank keeper's transfer from the denomination's address to the
  record's receiver succeeds. When it succeeds, the store differs from the one before
  only at the record's key, which holds the encoding of the record with the secret and
  the state \<open>Completed\<close> (which \<open>GetHTLC\<close> reads back where the codec round-trips it),
  and exactly one transfer was asked of the bank keeper, which made it: the record's
  amount from the denomination's address to the record's receiver.
\<close>

theorem ClaimHTLC_succeeds_iff:
  assumes "append_spares secret 8 secretHashLock"
  shows
  "((\<exists>tags. snd (snd (ClaimHTLC k ctx h secret secretHashLock)) = Inr tags) \<longleftrightarrow>
      (\<exists>htlc. GetHTLC k ctx (slice_bytes h secretHashLock) = Inr htlc \<and>
         State htlc = StateOpen \<and>
         snd (GetSecretHashLock k h secret (Timestamp htlc)) = slice_bytes h secretHashLock \<and>
         snd (bk k (bank ctx) (getHTLCAddress (Denom (OutAmount htlc))) (Receiver htlc)
                [OutAmount htlc]) = None)) \<and>
   (\<forall>ctx' h' tags. ClaimHTLC k ctx h secret secretHashLock = (ctx', h', Inr tags) \<longrightarrow>
      (\<exists>htlc. GetHTLC k ctx (slice_bytes h secretHashLock) = Inr htlc \<and>
         KVStore ctx' = (KVStore ctx)(KeyHTLC (slice_bytes h secretHashLock) \<mapsto>
            MarshalHTLC (cdc k)
              (htlc\<lparr>Secret := slice_bytes h secret, State := StateCompleted\<rparr>)) \<and>
         (RoundTrips (cdc k) (htlc\<lparr>Secret := slice_bytes h secret, State := StateCompleted\<rparr>)
            \<longrightarrow> GetHTLC k ctx' (slice_bytes h secretHashLock) =
              Inr (htlc\<lparr>Secret := slice_bytes h secret, State := StateCompleted\<rparr>)) \<and>
         transfers ctx' = transfers ctx @
            [(getHTLCAddress (Denom (OutAmount htlc)), Receiver htlc, [OutAmount htlc])] \<and>
         bk k (bank ctx) (getHTLCAddress (Denom (OutAmount htlc))) (Receiver htlc)
            [OutAmount htlc] = (bank ctx', None) \<and>
         slice_bytes h' secret = slice_bytes h secret \<and>
         slice_bytes h' secretHashLock = slice_bytes h secretHashLock))"
proof (cases "GetHTLC k ctx (slice_bytes h secretHashLock)")
  case (Inl f)
  then show ?thesis by (simp add: ClaimHTLC_Inl)
next
  case (Inr htlc)
  obtain h1 digest where g: "GetSecretHashLock k h secret (Timestamp htlc) = (h1, digest)"
    by (cases "GetSecretHashLock k h secret (Timestamp htlc)")
  then have h1: "h1 = fst (GetSecretHashLock k h secret (Timestamp htlc))" by simp
  have same: "slice_bytes h1 secret = slice_bytes h secret"
    "slice_bytes h1 secretHashLock = slice_bytes h secretHashLock"
    using assms by (simp_all add: h1 GetSecretHashLock_keeps_secret GetSecretHashLock_spares)
  obtain b' r where b: "bk k (bank ctx) (getHTLCAddress (Denom (OutAmount htlc)))
      (Receiver htlc) [OutAmount htlc] = (b', r)"
    by (cases "bk k (bank ctx) (getHTLCAddress (Denom (OutAmount htlc)))
      (Receiver htlc) [OutAmount htlc]")
  show ?thesis
    using Inr g b same
    by (cases r) (auto simp: ClaimHTLC_Inr [OF Inr g] GetHTLC_def RoundTrips_def)
qed

theorem ClaimHTLC_succeeds_iff_witness:
  "append_spares secret_slice 8 lock_slice \<and>
   slice_bytes (two_arrays example_secret example_lock) secret_slice = example_secret \<and>
   slice_bytes (two_arrays example_secret example_lock) lock_slice = example_lock \<and>
   GetHTLC example_keeper (stored_ctx full_ledger example_htlc example_lock) example_lock
     = Inr example_htlc \<and>
   snd (snd (ClaimHTLC example_keeper (stored_ctx full_ledger example_htlc example_lock)
          (two_arrays example_secret example_lock) secret_slice lock_slice)) =
     Inr [(TagSender, AddressString [1, 2, 3]), (TagReceiver, AddressString [4, 5, 6]),
          (TagSecretHashLock, Text (EncodeToString example_lock)),
          (TagSecret, Text (EncodeToString example_secret))] \<and>
   GetHTLC example_keeper
       (fst (ClaimHTLC example_keeper (stored_ctx full_ledger example_htlc example_lock)
               (two_arrays example_secret example_lock) secret_slice lock_slice)) example_lock
     = Inr (example_htlc\<lparr>Secret := example_secret, State := StateCompleted\<rparr>) \<and>
   transfers (fst (ClaimHTLC example_keeper (stored_ctx full_ledger example_htlc example_lock)
               (two_arrays example_secret example_lock) secret_slice lock_slice))
     = [(getHTLCAddress ''iris-atto'', [4, 5, 6], [\<lparr>Denom = ''iris-atto'', Amount = 100\<rparr>])]"
proof -
  let ?ctx = "stored_ctx full_ledger example_htlc example_lock"
  let ?h = "two_arrays example_secret example_lock"
  have sp: "append_spares secret_slice 8 lock_slice" by (rule no_room_spares)
  have lock: "slice_bytes ?h lock_slice = example_lock"
    and secret: "slice_bytes ?h secret_slice = example_secret"
    by (simp_all add: slice_bytes_two_arrays example_lengths)
  have g: "GetHTLC example_keeper ?ctx example_lock = Inr example_htlc"
    by (rule GetHTLC_stored_ctx) (rule example_decodes)
  have s: "snd (bk example_keeper (bank ?ctx) (getHTLCAddress (Denom (OutAmount example_htlc)))
                 (Receiver example_htlc) [OutAmount example_htlc]) = None"
    by (simp add: example_keeper_simps stored_ctx_simps example_htlc_simps full_ledger_sends)
  have r: "RoundTrips (cdc example_keeper)
             (example_htlc\<lparr>Secret := example_secret, State := StateCompleted\<rparr>)"
    by (simp add: RoundTrips_def example_keeper_simps example_cdc_simps example_decodes_completed)
  have l: "snd (GetSecretHashLock example_keeper ?h secret_slice (Timestamp example_htlc))
             = example_lock"
    by (simp add: GetSecretHashLock_example)
  note t = ClaimHTLC_succeeds_iff [OF sp, of example_keeper ?ctx ?h]
  from t g s l obtain tags where
    "snd (snd (ClaimHTLC example_keeper ?ctx ?h secret_slice lock_slice)) = Inr tags"
    unfolding lock secret by (auto simp: example_htlc_simps)
  then obtain ctx' h' where
    c: "ClaimHTLC example_keeper ?ctx ?h secret_slice lock_slice = (ctx', h', Inr tags)"
    by (cases "ClaimHTLC example_keeper ?ctx ?h secret_slice lock_slice") auto
  from t [unfolded lock secret] c g r
  have "GetHTLC example_keeper ctx' example_lock
      = Inr (example_htlc\<lparr>Secret := example_secret, State := StateCompleted\<rparr>)"
    and "transfers ctx' = transfers ?ctx @
            [(getHTLCAddress (Denom (OutAmount example_htlc)), Receiver example_htlc,
              [OutAmount example_htlc])]"
    by auto
  moreover have "tags = [(TagSender, AddressString [1, 2, 3]),
          (TagReceiver, AddressString [4, 5, 6]),
          (TagSecretHashLock, Text (EncodeToString example_lock)),
          (TagSecret, Text (EncodeToString example_secret))]"
    using c ClaimHTLC_example by simp
  ultimately show ?thesis
    using sp lock secret g c by (simp add: stored_ctx_simps example_htlc_simps)
qed

text \<open>
  C1 as the spec states it leaves the transfer out, and fails where the transfer fails:
  the record is there, it is \<open>Open\<close>, the secret's digest is the hash lock (the two
  slices are on arrays of their own), and the denomination's address holds nothing, so
  the bank keeper refuses and \<open>ClaimHTLC\<close> returns the bank's error.
\<close>

theorem ClaimHTLC_transfer_fails_counterexample:
  "slice_bytes (two_arrays example_secret example_lock) secret_slice = example_secret \<and>
   slice_bytes (two_arrays example_secret example_lock) lock_slice = example_lock \<and>
   GetHTLC example_keeper (stored_ctx empty_ledger example_htlc example_lock) example_lock
     = Inr example_htlc \<and>
   State example_htlc = StateOpen \<and>
   snd (GetSecretHashLock example_keeper (two_arrays example_secret example_lock) secret_slice
          (Timestamp example_htlc)) = example_lock \<and>
   snd (snd (ClaimHTLC example_keeper (stored_ctx empty_ledger example_htlc example_lock)
          (two_arrays example_secret example_lock) secret_slice lock_slice))
     = Inl (Error (ErrBank ''insufficient coins''))"
proof -
  let ?ctx = "stored_ctx empty_ledger example_htlc example_lock"
  let ?h = "two_arrays example_secret example_lock"
  have lock: "slice_bytes ?h lock_slice = example_lock"
    and secret: "slice_bytes ?h secret_slice = example_secret"
    by (simp_all add: slice_bytes_two_arrays example_lengths)
  have g: "GetHTLC example_keeper ?ctx (slice_bytes ?h lock_slice) = Inr example_htlc"
    unfolding lock by (rule GetHTLC_stored_ctx) (rule example_decodes)
  have g0: "GetHTLC example_keeper ?ctx example_lock = Inr example_htlc"
    by (rule GetHTLC_stored_ctx) (rule example_decodes)
  have s: "State example_htlc = StateOpen" by (simp add: example_htlc_simps)
  have d: "snd (GetSecretHashLock example_keeper ?h secret_slice (Timestamp example_htlc))
      = example_lock"
    by (simp only: GetSecretHashLock_example snd_conv)
  have c: "snd (snd (ClaimHTLC example_keeper ?ctx ?h secret_slice lock_slice))
     = Inl (Error (ErrBank ''insufficient coins''))"
    by (simp add: ClaimHTLC_Inr [OF g GetSecretHashLock_example] lock secret
        example_htlc_simps example_keeper_simps stored_ctx_simps empty_ledger_fails)
  show ?thesis by (intro conjI secret lock g0 s d c)
qed



section \<open>Refunding\<close>

text \<open>
  C2. \<open>RefundHTLC\<close> succeeds only on a record whose state is \<open>Expired\<close> (and then iff the
  bank keeper makes the transfer). When it succeeds, exactly one transfer was asked of
  the bank keeper and the bank keeper made it, the record's amount from the
  denomination's address to the record's sender, and the record is stored with the state
  \<open>Refunded\<close>. On a record that is \<open>Open\<close>, \<open>Completed\<close> or \<open>Refunded\<close> it returns the
  error \<^verbatim>\<open>ErrStateIsNotOpen\<close> (the spec's InvalidState) and leaves the context as it was:
  no transfer, no write.
\<close>

theorem RefundHTLC_only_expired:
  "((\<exists>tags. snd (RefundHTLC k ctx secretHashLock) = Inr tags) \<longleftrightarrow>
      (\<exists>htlc. GetHTLC k ctx secretHashLock = Inr htlc \<and> State htlc = StateExpired \<and>
         snd (bk k (bank ctx) (getHTLCAddress (Denom (OutAmount htlc))) (Sender htlc)
                [OutAmount htlc]) = None)) \<and>
   (\<forall>ctx' tags. RefundHTLC k ctx secretHashLock = (ctx', Inr tags) \<longrightarrow>
      (\<exists>htlc. GetHTLC k ctx secretHashLock = Inr htlc \<and> State htlc = StateExpired \<and>
         transfers ctx' = transfers ctx @
            [(getHTLCAddress (Denom (OutAmount htlc)), Sender htlc, [OutAmount htlc])] \<and>
         bk k (bank ctx) (getHTLCAddress (Denom (OutAmount htlc))) (Sender htlc)
            [OutAmount htlc] = (bank ctx', None) \<and>
         KVStore ctx' = (KVStore ctx)(KeyHTLC secretHashLock \<mapsto>
            MarshalHTLC (cdc k) (htlc\<lparr>State := StateRefunded\<rparr>)) \<and>
         (RoundTrips (cdc k) (htlc\<lparr>State := StateRefunded\<rparr>) \<longrightarrow>
            GetHTLC k ctx' secretHashLock = Inr (htlc\<lparr>State := StateRefunded\<rparr>)))) \<and>
   (\<forall>htlc. GetHTLC k ctx secretHashLock = Inr htlc \<and>
        State htlc \<in> {StateOpen, StateCompleted, StateRefunded} \<longrightarrow>
      RefundHTLC k ctx secretHashLock =
        (ctx, Inl (Error (ErrStateIsNotOpen (codespace k) ''HTLC state is not Expired.''))))"
proof (cases "GetHTLC k ctx secretHashLock")
  case (Inl f)
  then show ?thesis by (simp add: RefundHTLC_Inl)
next
  case (Inr htlc)
  obtain b' r where b: "bk k (bank ctx) (getHTLCAddress (Denom (OutAmount htlc))) (Sender htlc)
      [OutAmount htlc] = (b', r)"
    by (cases "bk k (bank ctx) (getHTLCAddress (Denom (OutAmount htlc))) (Sender htlc)
      [OutAmount htlc]")
  show ?thesis
    using Inr b
    by (cases r) (auto simp: RefundHTLC_Inr GetHTLC_def RoundTrips_def)
qed

theorem RefundHTLC_only_expired_witness:
  "GetHTLC example_keeper
       (stored_ctx full_ledger (example_htlc\<lparr>State := StateExpired\<rparr>) example_lock) example_lock
     = Inr (example_htlc\<lparr>State := StateExpired\<rparr>) \<and>
   snd (RefundHTLC example_keeper
          (stored_ctx full_ledger (example_htlc\<lparr>State := StateExpired\<rparr>) example_lock)
          example_lock) =
     Inr [(TagSender, AddressString [1, 2, 3]),
          (TagSecretHashLock, Text (EncodeToString example_lock))] \<and>
   snd (ledger_SendCoins full_ledger (getHTLCAddress ''iris-atto'') [1, 2, 3]
          [\<lparr>Denom = ''iris-atto'', Amount = 100\<rparr>]) = None \<and>
   GetHTLC example_keeper
       (fst (RefundHTLC example_keeper
          (stored_ctx full_ledger (example_htlc\<lparr>State := StateExpired\<rparr>) example_lock)
          example_lock)) example_lock
     = Inr (example_htlc\<lparr>State := StateRefunded\<rparr>) \<and>
   transfers (fst (RefundHTLC example_keeper
          (stored_ctx full_ledger (example_htlc\<lparr>State := StateExpired\<rparr>) example_lock)
          example_lock))
     = [(getHTLCAddress ''iris-atto'', [1, 2, 3], [\<lparr>Denom = ''iris-atto'', Amount = 100\<rparr>])] \<and>
   snd (RefundHTLC example_keeper
          (stored_ctx empty_ledger (example_htlc\<lparr>State := StateExpired\<rparr>) example_lock)
          example_lock) = Inl (Error (ErrBank ''insufficient coins'')) \<and>
   GetHTLC example_keeper (stored_ctx full_ledger example_htlc example_lock) example_lock
     = Inr example_htlc \<and>
   State example_htlc = StateOpen \<and>
   RefundHTLC example_keeper (stored_ctx full_ledger example_htlc example_lock) example_lock =
     (stored_ctx full_ledger example_htlc example_lock,
      Inl (Error (ErrStateIsNotOpen ''htlc'' ''HTLC state is not Expired.'')))"
proof -
  let ?h = "example_htlc\<lparr>State := StateExpired\<rparr>"
  let ?ctx = "stored_ctx full_ledger ?h example_lock"
  let ?poor = "stored_ctx empty_ledger ?h example_lock"
  let ?open = "stored_ctx full_ledger example_htlc example_lock"
  have g: "GetHTLC example_keeper ?ctx example_lock = Inr ?h"
    by (rule GetHTLC_stored_ctx) (rule example_decodes_expired)
  have gp: "GetHTLC example_keeper ?poor example_lock = Inr ?h"
    by (rule GetHTLC_stored_ctx) (rule example_decodes_expired)
  have go: "GetHTLC example_keeper ?open example_lock = Inr example_htlc"
    by (rule GetHTLC_stored_ctx) (rule example_decodes)
  have s0: "snd (ledger_SendCoins full_ledger (getHTLCAddress ''iris-atto'') [1, 2, 3]
          [\<lparr>Denom = ''iris-atto'', Amount = 100\<rparr>]) = None"
    by (simp add: full_ledger_sends)
  then have s: "snd (bk example_keeper (bank ?ctx) (getHTLCAddress (Denom (OutAmount ?h)))
                 (Sender ?h) [OutAmount ?h]) = None"
    by (simp add: example_keeper_simps stored_ctx_simps example_htlc_simps)
  have r: "RoundTrips (cdc example_keeper) (?h\<lparr>State := StateRefunded\<rparr>)"
    by (simp add: RoundTrips_def example_keeper_simps example_cdc_simps example_decodes_refunded)
  note t = RefundHTLC_only_expired [of example_keeper ?ctx example_lock]
  from t g s obtain tags where
    "snd (RefundHTLC example_keeper ?ctx example_lock) = Inr tags"
    by (auto simp: example_htlc_simps)
  then obtain ctx' where c: "RefundHTLC example_keeper ?ctx example_lock = (ctx', Inr tags)"
    by (cases "RefundHTLC example_keeper ?ctx example_lock") simp
  have tags: "tags = [(TagSender, AddressString [1, 2, 3]),
          (TagSecretHashLock, Text (EncodeToString example_lock))]"
    using c s by (auto simp: RefundHTLC_Inr [OF g] example_htlc_simps
        split: prod.splits option.splits)
  from t c g r have "GetHTLC example_keeper ctx' example_lock
      = Inr (example_htlc\<lparr>State := StateRefunded\<rparr>)"
    and "transfers ctx' = transfers ?ctx @
            [(getHTLCAddress (Denom (OutAmount ?h)), Sender ?h, [OutAmount ?h])]"
    by auto
  moreover
  have "snd (bk example_keeper (bank ?poor) (getHTLCAddress (Denom (OutAmount ?h)))
                 (Sender ?h) [OutAmount ?h]) \<noteq> None"
    by (simp add: example_keeper_simps stored_ctx_simps example_htlc_simps empty_ledger_fails)
  with RefundHTLC_only_expired [of example_keeper ?poor example_lock] gp
  have "\<not> (\<exists>tags. snd (RefundHTLC example_keeper ?poor example_lock) = Inr tags)"
    by auto
  then have "snd (RefundHTLC example_keeper ?poor example_lock)
      = Inl (Error (ErrBank ''insufficient coins''))"
    by (simp add: RefundHTLC_Inr [OF gp] example_htlc_simps example_keeper_simps
        stored_ctx_simps empty_ledger_fails)
  moreover
  from RefundHTLC_only_expired [of example_keeper ?open example_lock] go
  have "RefundHTLC example_keeper ?open example_lock =
     (?open, Inl (Error (ErrStateIsNotOpen ''htlc'' ''HTLC state is not Expired.'')))"
    by (simp add: example_htlc_simps example_keeper_simps)
  ultimately show ?thesis
    using g go c tags s0 by (simp add: stored_ctx_simps example_htlc_simps)
qed



section \<open>Creating\<close>

text \<open>
  C3. \<open>CreateHTLC\<close> returns the error \<^verbatim>\<open>ErrSecretHashLockAlreadyExists\<close> (the spec's
  DuplicateHashLock) iff the store has the key of the hash lock; it then leaves the
  context as it was, so no transfer is asked of the bank keeper.
\<close>

theorem CreateHTLC_duplicate_iff:
  "((\<exists>cs msg. snd (CreateHTLC k ctx htlc secretHashLock) =
        Inl (Error (ErrSecretHashLockAlreadyExists cs msg))) \<longleftrightarrow>
      HasSecretHashLock k ctx secretHashLock) \<and>
   (HasSecretHashLock k ctx secretHashLock \<longrightarrow>
      CreateHTLC k ctx htlc secretHashLock =
        (ctx, Inl (Error (ErrSecretHashLockAlreadyExists DefaultCodespace
           (''the secret hash lock already exists: '' @ EncodeToString secretHashLock)))))"
  by (auto simp: CreateHTLC_eq HasSecretHashLock_def split: prod.splits option.splits)

theorem CreateHTLC_duplicate_iff_witness:
  "HasSecretHashLock example_keeper (stored_ctx full_ledger example_htlc example_lock) example_lock \<and>
   CreateHTLC example_keeper (stored_ctx full_ledger example_htlc example_lock) example_htlc
       example_lock =
     (stored_ctx full_ledger example_htlc example_lock,
      Inl (Error (ErrSecretHashLockAlreadyExists DefaultCodespace
        (''the secret hash lock already exists: '' @ EncodeToString example_lock))))"
proof -
  have h: "HasSecretHashLock example_keeper (stored_ctx full_ledger example_htlc example_lock)
             example_lock"
    by (simp add: HasSecretHashLock_def stored_ctx_simps KeyHTLC_neq_KeyHTLCExpireQueue)
  with CreateHTLC_duplicate_iff [of example_keeper
         "stored_ctx full_ledger example_htlc example_lock" example_htlc example_lock]
  show ?thesis by simp
qed


section \<open>Failures leave the store alone\<close>

text \<open>
  C4. When \<open>CreateHTLC\<close>, \<open>ClaimHTLC\<close> or \<open>RefundHTLC\<close> does not succeed (an error of its
  own, an error of the bank keeper, a panic of the codec), the store, records and
  expiration index alike, is the store before the call. Either the whole context is
  unchanged (a check failed before the transfer), or the failure is the bank keeper's
  error and the one transfer it refused is the only trace. For \<open>ClaimHTLC\<close> this holds
  of every heap and every two slices, those that share an array as well.
\<close>

theorem failed_operation_keeps_store:
  "(\<forall>f. snd (CreateHTLC k ctx htlc secretHashLock) = Inl f \<longrightarrow>
      KVStore (fst (CreateHTLC k ctx htlc secretHashLock)) = KVStore ctx \<and>
      (fst (CreateHTLC k ctx htlc secretHashLock) = ctx \<or>
       (\<exists>e. f = Error (ErrBank e)) \<and>
       transfers (fst (CreateHTLC k ctx htlc secretHashLock)) = transfers ctx @
         [(Sender htlc, getHTLCAddress (Denom (OutAmount htlc)), [OutAmount htlc])])) \<and>
   (\<forall>f. snd (snd (ClaimHTLC k ctx h secret lock)) = Inl f \<longrightarrow>
      KVStore (fst (ClaimHTLC k ctx h secret lock)) = KVStore ctx \<and>
      (fst (ClaimHTLC k ctx h secret lock) = ctx \<or>
       (\<exists>e. f = Error (ErrBank e)) \<and>
       (\<exists>t. transfers (fst (ClaimHTLC k ctx h secret lock)) = transfers ctx @ [t]))) \<and>
   (\<forall>f. snd (RefundHTLC k ctx secretHashLock) = Inl f \<longrightarrow>
      KVStore (fst (RefundHTLC k ctx secretHashLock)) = KVStore ctx \<and>
      (fst (RefundHTLC k ctx secretHashLock) = ctx \<or>
       (\<exists>e. f = Error (ErrBank e)) \<and>
       (\<exists>t. transfers (fst (RefundHTLC k ctx secretHashLock)) = transfers ctx @ [t])))"
proof (intro conjI)
  show "\<forall>f. snd (CreateHTLC k ctx htlc secretHashLock) = Inl f \<longrightarrow>
      KVStore (fst (CreateHTLC k ctx htlc secretHashLock)) = KVStore ctx \<and>
      (fst (CreateHTLC k ctx htlc secretHashLock) = ctx \<or>
       (\<exists>e. f = Error (ErrBank e)) \<and>
       transfers (fst (CreateHTLC k ctx htlc secretHashLock)) = transfers ctx @
         [(Sender htlc, getHTLCAddress (Denom (OutAmount htlc)), [OutAmount htlc])])"
    by (auto simp: CreateHTLC_eq split: prod.splits option.splits)
next
  show "\<forall>f. snd (snd (ClaimHTLC k ctx h secret lock)) = Inl f \<longrightarrow>
      KVStore (fst (ClaimHTLC k ctx h secret lock)) = KVStore ctx \<and>
      (fst (ClaimHTLC k ctx h secret lock) = ctx \<or>
       (\<exists>e. f = Error (ErrBank e)) \<and>
       (\<exists>t. transfers (fst (ClaimHTLC k ctx h secret lock)) = transfers ctx @ [t]))"
  proof (cases "GetHTLC k ctx (slice_bytes h lock)")
    case (Inl f)
    then show ?thesis by (simp add: ClaimHTLC_Inl)
  next
    case (Inr htlc')
    obtain h1 digest where
      g: "GetSecretHashLock k h secret (Timestamp htlc') = (h1, digest)"
      by (cases "GetSecretHashLock k h secret (Timestamp htlc')")
    show ?thesis
      by (auto simp: ClaimHTLC_Inr [OF Inr g] split: prod.splits option.splits)
  qed
next
  show "\<forall>f. snd (RefundHTLC k ctx secretHashLock) = Inl f \<longrightarrow>
      KVStore (fst (RefundHTLC k ctx secretHashLock)) = KVStore ctx \<and>
      (fst (RefundHTLC k ctx secretHashLock) = ctx \<or>
       (\<exists>e. f = Error (ErrBank e)) \<and>
       (\<exists>t. transfers (fst (RefundHTLC k ctx secretHashLock)) = transfers ctx @ [t]))"
  proof (cases "GetHTLC k ctx secretHashLock")
    case (Inl f)
    then show ?thesis by (simp add: RefundHTLC_Inl)
  next
    case (Inr h)
    then show ?thesis by (auto simp: RefundHTLC_Inr split: prod.splits option.splits)
  qed
qed

theorem failed_operation_keeps_store_witness:
  "snd (CreateHTLC example_keeper (empty_ctx empty_ledger) example_htlc example_lock)
     = Inl (Error (ErrBank ''insufficient coins'')) \<and>
   KVStore (fst (CreateHTLC example_keeper (empty_ctx empty_ledger) example_htlc example_lock))
     = Map.empty \<and>
   snd (snd (ClaimHTLC example_keeper (stored_ctx empty_ledger example_htlc example_lock)
          (two_arrays example_secret example_lock) secret_slice lock_slice))
     = Inl (Error (ErrBank ''insufficient coins'')) \<and>
   KVStore (fst (ClaimHTLC example_keeper (stored_ctx empty_ledger example_htlc example_lock)
                   (two_arrays example_secret example_lock) secret_slice lock_slice))
     = KVStore (stored_ctx empty_ledger example_htlc example_lock) \<and>
   snd (RefundHTLC example_keeper
          (stored_ctx empty_ledger (example_htlc\<lparr>State := StateExpired\<rparr>) example_lock)
          example_lock)
     = Inl (Error (ErrBank ''insufficient coins'')) \<and>
   KVStore (fst (RefundHTLC example_keeper
          (stored_ctx empty_ledger (example_htlc\<lparr>State := StateExpired\<rparr>) example_lock)
          example_lock))
     = KVStore (stored_ctx empty_ledger (example_htlc\<lparr>State := StateExpired\<rparr>) example_lock)"
proof -
  let ?c1 = "empty_ctx empty_ledger"
  let ?c2 = "stored_ctx empty_ledger example_htlc example_lock"
  let ?c3 = "stored_ctx empty_ledger (example_htlc\<lparr>State := StateExpired\<rparr>) example_lock"
  let ?h = "two_arrays example_secret example_lock"
  have lock: "slice_bytes ?h lock_slice = example_lock"
    and secret: "slice_bytes ?h secret_slice = example_secret"
    by (simp_all add: slice_bytes_two_arrays example_lengths)
  have g2: "GetHTLC example_keeper ?c2 (slice_bytes ?h lock_slice) = Inr example_htlc"
    unfolding lock by (rule GetHTLC_stored_ctx) (rule example_decodes)
  have g3: "GetHTLC example_keeper ?c3 example_lock = Inr (example_htlc\<lparr>State := StateExpired\<rparr>)"
    by (rule GetHTLC_stored_ctx) (rule example_decodes_expired)
  have f1: "snd (CreateHTLC example_keeper ?c1 example_htlc example_lock)
     = Inl (Error (ErrBank ''insufficient coins''))"
    by (simp add: CreateHTLC_eq empty_ctx_simps example_htlc_simps example_keeper_simps
        empty_ledger_fails)
  have f2: "snd (snd (ClaimHTLC example_keeper ?c2 ?h secret_slice lock_slice))
     = Inl (Error (ErrBank ''insufficient coins''))"
    by (simp add: ClaimHTLC_Inr [OF g2 GetSecretHashLock_example] lock secret
        example_htlc_simps example_keeper_simps stored_ctx_simps empty_ledger_fails)
  have f3: "snd (RefundHTLC example_keeper ?c3 example_lock)
     = Inl (Error (ErrBank ''insufficient coins''))"
    by (simp add: RefundHTLC_Inr[OF g3] example_htlc_simps example_keeper_simps
        stored_ctx_simps empty_ledger_fails)
  note t1 = failed_operation_keeps_store
    [where k = example_keeper and ctx = ?c1 and htlc = example_htlc
       and secretHashLock = example_lock and h = ?h and secret = secret_slice
       and lock = lock_slice]
  note t2 = failed_operation_keeps_store
    [where k = example_keeper and ctx = ?c2 and htlc = example_htlc
       and secretHashLock = example_lock and h = ?h and secret = secret_slice
       and lock = lock_slice]
  note t3 = failed_operation_keeps_store
    [where k = example_keeper and ctx = ?c3 and htlc = example_htlc
       and secretHashLock = example_lock and h = ?h and secret = secret_slice
       and lock = lock_slice]
  from t1 f1 have "KVStore (fst (CreateHTLC example_keeper ?c1 example_htlc example_lock))
      = KVStore ?c1" by blast
  moreover from t2 f2
  have "KVStore (fst (ClaimHTLC example_keeper ?c2 ?h secret_slice lock_slice))
      = KVStore ?c2" by blast
  moreover from t3 f3 have "KVStore (fst (RefundHTLC example_keeper ?c3 example_lock))
      = KVStore ?c3" by blast
  ultimately show ?thesis using f1 f2 f3 by (simp add: empty_ctx_simps)
qed



section \<open>What creation stores\<close>

text \<open>
  C5, as amended. After a successful \<open>CreateHTLC\<close> the key of the hash lock holds the
  encoding of the record the caller passed, unchanged (so \<open>GetHTLC\<close> reads that record
  back where the codec round-trips it, and its state is \<open>Open\<close> exactly when the caller's
  record says \<open>Open\<close>), and the expiration index has the entry of the record's expire
  height and the hash lock.
\<close>

theorem CreateHTLC_stores_supplied_record:
  "CreateHTLC k ctx htlc secretHashLock = (ctx', Inr tags) \<Longrightarrow>
   KVStore ctx' (KeyHTLC secretHashLock) = Some (MarshalHTLC (cdc k) htlc) \<and>
   (RoundTrips (cdc k) htlc \<longrightarrow> GetHTLC k ctx' secretHashLock = Inr htlc) \<and>
   KVStore ctx' (KeyHTLCExpireQueue (ExpireHeight htlc) secretHashLock)
     = Some (MarshalBytes (cdc k) secretHashLock) \<and>
   InExpireQueueScan ctx' (ExpireHeight htlc) secretHashLock"
  by (auto simp: CreateHTLC_eq GetHTLC_def RoundTrips_def InExpireQueueScan_def
      KeyHTLC_neq_KeyHTLCExpireQueue split: prod.splits option.splits if_splits)

theorem CreateHTLC_stores_supplied_record_witness:
  "snd (CreateHTLC example_keeper (empty_ctx full_ledger) example_htlc example_lock) =
     Inr [(TagSender, AddressString [1, 2, 3]), (TagReceiver, AddressString [4, 5, 6]),
          (TagReceiverOnOtherChain, Raw [7]),
          (TagSecretHashLock, Text (EncodeToString example_lock))] \<and>
   GetHTLC example_keeper
     (fst (CreateHTLC example_keeper (empty_ctx full_ledger) example_htlc example_lock))
     example_lock = Inr example_htlc \<and>
   State example_htlc = StateOpen \<and>
   InExpireQueueScan
     (fst (CreateHTLC example_keeper (empty_ctx full_ledger) example_htlc example_lock))
     1000 example_lock"
proof -
  obtain ctx' tags where
    c: "CreateHTLC example_keeper (empty_ctx full_ledger) example_htlc example_lock = (ctx', Inr tags)"
    and tags: "tags = [(TagSender, AddressString [1, 2, 3]), (TagReceiver, AddressString [4, 5, 6]),
          (TagReceiverOnOtherChain, Raw [7]),
          (TagSecretHashLock, Text (EncodeToString example_lock))]"
    by (simp add: CreateHTLC_example example_htlc_simps)
  have r: "RoundTrips (cdc example_keeper) example_htlc"
    by (simp add: RoundTrips_def example_keeper_simps example_cdc_simps example_decodes)
  from CreateHTLC_stores_supplied_record [OF c] r
  show ?thesis by (simp add: c tags example_htlc_simps)
qed

text \<open>
  C5 as the spec states it has \<open>CreateHTLC\<close> store the state \<open>Open\<close>. The keeper stores
  the state it is given: created from a record whose state is \<open>Refunded\<close>, the contract
  is read back \<open>Refunded\<close>.
\<close>

theorem CreateHTLC_state_counterexample:
  "snd (CreateHTLC example_keeper (empty_ctx full_ledger)
          (example_htlc\<lparr>State := StateRefunded\<rparr>) example_lock) =
     Inr [(TagSender, AddressString [1, 2, 3]), (TagReceiver, AddressString [4, 5, 6]),
          (TagReceiverOnOtherChain, Raw [7]),
          (TagSecretHashLock, Text (EncodeToString example_lock))] \<and>
   GetHTLC example_keeper
     (fst (CreateHTLC example_keeper (empty_ctx full_ledger)
          (example_htlc\<lparr>State := StateRefunded\<rparr>) example_lock))
     example_lock = Inr (example_htlc\<lparr>State := StateRefunded\<rparr>) \<and>
   State (example_htlc\<lparr>State := StateRefunded\<rparr>) = StateRefunded"
  by (simp add: CreateHTLC_example example_htlc_simps GetHTLC_def example_keeper_simps
      example_cdc_simps example_decodes_refunded KeyHTLC_neq_KeyHTLCExpireQueue)


section \<open>The invariant of the secret\<close>

text \<open>
  C6, as amended. The invariant of the store (every record \<open>GetHTLC\<close> reads, at any
  digest, has a non-empty secret iff its state is \<open>Completed\<close>) is preserved by
  \<open>RefundHTLC\<close>, by \<open>ClaimHTLC\<close> when the secret supplied is not empty, and by
  \<open>CreateHTLC\<close> when the record supplied has the property itself. Each needs the codec to
  round-trip the record the operation writes; \<open>CreateHTLC\<close> also writes the entry of the
  expiration index, and needs the codec not to read that entry as a record without the
  property.
\<close>

theorem StoreInvariant_preserved:
  "(StoreInvariant k ctx \<and> SecretIffCompleted htlc \<and> RoundTrips (cdc k) htlc \<and>
      (\<forall>r. UnmarshalHTLC (cdc k) (MarshalBytes (cdc k) secretHashLock) = Some r \<longrightarrow>
         SecretIffCompleted r) \<longrightarrow>
    StoreInvariant k (fst (CreateHTLC k ctx htlc secretHashLock))) \<and>
   (StoreInvariant k ctx \<and> slice_bytes h secret \<noteq> [] \<and>
      (\<forall>r. GetHTLC k ctx (slice_bytes h lock) = Inr r \<longrightarrow>
         RoundTrips (cdc k) (r\<lparr>Secret := slice_bytes h secret, State := StateCompleted\<rparr>))
      \<longrightarrow>
    StoreInvariant k (fst (ClaimHTLC k ctx h secret lock))) \<and>
   (StoreInvariant k ctx \<and>
      (\<forall>r. GetHTLC k ctx secretHashLock = Inr r \<longrightarrow>
         RoundTrips (cdc k) (r\<lparr>State := StateRefunded\<rparr>)) \<longrightarrow>
    StoreInvariant k (fst (RefundHTLC k ctx secretHashLock)))"
  using StoreInvariant_CreateHTLC [of k ctx htlc secretHashLock]
    StoreInvariant_ClaimHTLC [of k ctx h secret lock]
    StoreInvariant_RefundHTLC [of k ctx secretHashLock]
  by blast

theorem StoreInvariant_preserved_witness:
  "StoreInvariant example_keeper (empty_ctx full_ledger) \<and>
   StoreInvariant example_keeper
     (fst (CreateHTLC example_keeper (empty_ctx full_ledger) example_htlc example_lock)) \<and>
   StoreInvariant example_keeper (stored_ctx full_ledger example_htlc example_lock) \<and>
   slice_bytes (two_arrays example_secret example_lock) secret_slice = example_secret \<and>
   example_secret = [0x5f, 0x5f, 0x61, 0x62, 0x63, 0x5f, 0x5f] \<and>
   StoreInvariant example_keeper
     (fst (ClaimHTLC example_keeper (stored_ctx full_ledger example_htlc example_lock)
             (two_arrays example_secret example_lock) secret_slice lock_slice)) \<and>
   StoreInvariant example_keeper
     (stored_ctx full_ledger (example_htlc\<lparr>State := StateExpired\<rparr>) example_lock) \<and>
   StoreInvariant example_keeper
     (fst (RefundHTLC example_keeper
             (stored_ctx full_ledger (example_htlc\<lparr>State := StateExpired\<rparr>) example_lock)
             example_lock))"
proof -
  let ?e = "example_htlc\<lparr>State := StateExpired\<rparr>"
  let ?c1 = "empty_ctx full_ledger"
  let ?c2 = "stored_ctx full_ledger example_htlc example_lock"
  let ?c3 = "stored_ctx full_ledger ?e example_lock"
  let ?h = "two_arrays example_secret example_lock"
  have lock: "slice_bytes ?h lock_slice = example_lock"
    and secret: "slice_bytes ?h secret_slice = example_secret"
    by (simp_all add: slice_bytes_two_arrays example_lengths)
  have len: "length example_lock = 32" by (rule example_lengths)
  have ok: "SecretIffCompleted example_htlc" "SecretIffCompleted ?e"
    by (simp_all add: SecretIffCompleted_def example_htlc_simps)
  have i1: "StoreInvariant example_keeper ?c1" by (rule StoreInvariant_empty_ctx)
  have i2: "StoreInvariant example_keeper ?c2"
    using ok(1) example_decodes len by (rule StoreInvariant_stored_ctx)
  have i3: "StoreInvariant example_keeper ?c3"
    using ok(2) example_decodes_expired len by (rule StoreInvariant_stored_ctx)
  have r1: "RoundTrips (cdc example_keeper) example_htlc"
    by (simp add: RoundTrips_def example_keeper_simps example_cdc_simps example_decodes)
  have q1: "\<forall>r. UnmarshalHTLC (cdc example_keeper) (MarshalBytes (cdc example_keeper)
              example_lock) = Some r \<longrightarrow> SecretIffCompleted r"
    by (simp add: example_keeper_simps example_cdc_simps example_queue_entry_no_record len)
  have g2: "GetHTLC example_keeper ?c2 example_lock = Inr example_htlc"
    by (rule GetHTLC_stored_ctx) (rule example_decodes)
  have g3: "GetHTLC example_keeper ?c3 example_lock = Inr ?e"
    by (rule GetHTLC_stored_ctx) (rule example_decodes_expired)
  have r2: "\<forall>r. GetHTLC example_keeper ?c2 (slice_bytes ?h lock_slice) = Inr r \<longrightarrow>
      RoundTrips (cdc example_keeper)
        (r\<lparr>Secret := slice_bytes ?h secret_slice, State := StateCompleted\<rparr>)"
    by (simp add: lock secret g2 RoundTrips_def example_keeper_simps example_cdc_simps
        example_decodes_completed)
  have r3: "\<forall>r. GetHTLC example_keeper ?c3 example_lock = Inr r \<longrightarrow>
      RoundTrips (cdc example_keeper) (r\<lparr>State := StateRefunded\<rparr>)"
    by (simp add: g3 RoundTrips_def example_keeper_simps example_cdc_simps
        example_decodes_refunded)
  have ne: "slice_bytes ?h secret_slice \<noteq> []"
    unfolding secret by (simp add: example_secret_def)
  from StoreInvariant_preserved [where k = example_keeper and ctx = ?c1
      and htlc = example_htlc and secretHashLock = example_lock and h = ?h
      and secret = secret_slice and lock = lock_slice] i1 ok(1) r1 q1
  have "StoreInvariant example_keeper
     (fst (CreateHTLC example_keeper ?c1 example_htlc example_lock))" by blast
  moreover
  from StoreInvariant_preserved [where k = example_keeper and ctx = ?c2
      and htlc = example_htlc and secretHashLock = example_lock and h = ?h
      and secret = secret_slice and lock = lock_slice] i2 ne r2
  have "StoreInvariant example_keeper
     (fst (ClaimHTLC example_keeper ?c2 ?h secret_slice lock_slice))" by blast
  moreover
  from StoreInvariant_preserved [where k = example_keeper and ctx = ?c3
      and htlc = example_htlc and secretHashLock = example_lock and h = ?h
      and secret = secret_slice and lock = lock_slice] i3 r3
  have "StoreInvariant example_keeper (fst (RefundHTLC example_keeper ?c3 example_lock))"
    by blast
  ultimately show ?thesis using i1 i2 i3 secret by (simp add: example_secret_def)
qed

text \<open>
  C6 as the spec states it holds of every operation. \<open>ClaimHTLC\<close> takes any secret whose
  digest is the hash lock, the empty one as well: a contract locked by the digest of the
  empty secret is claimed with it, and is then \<open>Completed\<close> with an empty secret.
  \<open>CreateHTLC\<close> stores the record it is given: created from a record that is \<open>Open\<close> with
  a secret in it, the contract is read back so. And \<open>CreateHTLC\<close> writes the hash lock
  under the key of the expiration index, which begins as the key of a record does: with
  a codec that writes the hash lock as it is, and a hash lock that is itself the encoding
  of a record \<open>Open\<close> with a secret, creating the example contract, which has no secret,
  leaves that record to be read at the digest \<^verbatim>\<open>"expire:" || bigEndian(1000) || lock\<close>.
\<close>

theorem ClaimHTLC_empty_secret_counterexample:
  "StoreInvariant example_keeper (stored_ctx full_ledger example_htlc empty_secret_lock) \<and>
   slice_bytes (two_arrays [] empty_secret_lock) empty_slice = [] \<and>
   slice_bytes (two_arrays [] empty_secret_lock) lock_slice = empty_secret_lock \<and>
   snd (snd (ClaimHTLC example_keeper (stored_ctx full_ledger example_htlc empty_secret_lock)
          (two_arrays [] empty_secret_lock) empty_slice lock_slice)) =
     Inr [(TagSender, AddressString [1, 2, 3]), (TagReceiver, AddressString [4, 5, 6]),
          (TagSecretHashLock, Text (EncodeToString empty_secret_lock)),
          (TagSecret, Text [])] \<and>
   GetHTLC example_keeper
     (fst (ClaimHTLC example_keeper (stored_ctx full_ledger example_htlc empty_secret_lock)
             (two_arrays [] empty_secret_lock) empty_slice lock_slice)) empty_secret_lock
     = Inr (example_htlc\<lparr>Secret := [], State := StateCompleted\<rparr>) \<and>
   \<not> StoreInvariant example_keeper
     (fst (ClaimHTLC example_keeper (stored_ctx full_ledger example_htlc empty_secret_lock)
             (two_arrays [] empty_secret_lock) empty_slice lock_slice)) \<and>
   StoreInvariant example_keeper (empty_ctx full_ledger) \<and>
   GetHTLC example_keeper
     (fst (CreateHTLC example_keeper (empty_ctx full_ledger)
             (example_htlc\<lparr>Secret := example_secret\<rparr>) example_lock)) example_lock
     = Inr (example_htlc\<lparr>Secret := example_secret\<rparr>) \<and>
   \<not> StoreInvariant example_keeper
     (fst (CreateHTLC example_keeper (empty_ctx full_ledger)
             (example_htlc\<lparr>Secret := example_secret\<rparr>) example_lock)) \<and>
   StoreInvariant bare_keeper (empty_ctx full_ledger) \<and>
   SecretIffCompleted example_htlc \<and>
   RoundTrips (cdc bare_keeper) example_htlc \<and>
   GetHTLC bare_keeper
     (fst (CreateHTLC bare_keeper (empty_ctx full_ledger) example_htlc record_lock))
     (bytes_of_string ''expire:'' @ Uint64ToBigEndian 1000 @ record_lock)
     = Inr (example_htlc\<lparr>Secret := example_secret\<rparr>) \<and>
   \<not> StoreInvariant bare_keeper
     (fst (CreateHTLC bare_keeper (empty_ctx full_ledger) example_htlc record_lock))"
proof -
  let ?ctx = "stored_ctx full_ledger example_htlc empty_secret_lock"
  let ?h = "two_arrays [] empty_secret_lock"
  let ?r = "example_htlc\<lparr>Secret := [], State := StateCompleted\<rparr>"
  let ?s = "example_htlc\<lparr>Secret := example_secret\<rparr>"
  have len: "length empty_secret_lock = 32" by (rule example_lengths)
  have lock: "slice_bytes ?h lock_slice = empty_secret_lock"
    and secret: "slice_bytes ?h empty_slice = []"
    by (simp_all add: slice_bytes_two_arrays len)
  have ok: "SecretIffCompleted example_htlc"
    by (simp add: SecretIffCompleted_def example_htlc_simps)
  have i: "StoreInvariant example_keeper ?ctx"
    using ok example_decodes len by (rule StoreInvariant_stored_ctx)
  have g: "GetHTLC example_keeper ?ctx (slice_bytes ?h lock_slice) = Inr example_htlc"
    unfolding lock by (rule GetHTLC_stored_ctx) (rule example_decodes)
  obtain b' where b: "ledger_SendCoins full_ledger (getHTLCAddress ''iris-atto'') [4, 5, 6]
                  [\<lparr>Denom = ''iris-atto'', Amount = 100\<rparr>] = (b', None)"
    using full_ledger_sends_example by blast
  have c: "snd (snd (ClaimHTLC example_keeper ?ctx ?h empty_slice lock_slice)) =
     Inr [(TagSender, AddressString [1, 2, 3]), (TagReceiver, AddressString [4, 5, 6]),
          (TagSecretHashLock, Text (EncodeToString empty_secret_lock)),
          (TagSecret, Text [])]"
    using b by (simp add: ClaimHTLC_Inr [OF g GetSecretHashLock_empty_example] lock secret
        example_htlc_simps example_keeper_simps stored_ctx_simps EncodeToString_def)
  have g': "GetHTLC example_keeper (fst (ClaimHTLC example_keeper ?ctx ?h empty_slice lock_slice))
      empty_secret_lock = Inr ?r"
    using b by (simp add: ClaimHTLC_Inr [OF g GetSecretHashLock_empty_example] lock secret
        example_htlc_simps example_keeper_simps stored_ctx_simps GetHTLC_def
        example_cdc_simps example_decodes_completed_empty)
  have "\<not> SecretIffCompleted ?r" by (simp add: SecretIffCompleted_def)
  with g' have n: "\<not> StoreInvariant example_keeper
     (fst (ClaimHTLC example_keeper ?ctx ?h empty_slice lock_slice))"
    by (auto simp: StoreInvariant_def)
  have gc: "GetHTLC example_keeper
     (fst (CreateHTLC example_keeper (empty_ctx full_ledger) ?s example_lock)) example_lock
     = Inr ?s"
    by (simp add: CreateHTLC_example example_htlc_simps GetHTLC_def example_keeper_simps
        example_cdc_simps example_decodes_open_secret KeyHTLC_neq_KeyHTLCExpireQueue)
  have bad: "\<not> SecretIffCompleted ?s"
    by (simp add: SecretIffCompleted_def example_htlc_simps example_secret_def)
  with gc have nc: "\<not> StoreInvariant example_keeper
     (fst (CreateHTLC example_keeper (empty_ctx full_ledger) ?s example_lock))"
    by (auto simp: StoreInvariant_def)
  let ?d = "bytes_of_string ''expire:'' @ Uint64ToBigEndian 1000 @ record_lock"
  have ib: "StoreInvariant bare_keeper (empty_ctx full_ledger)"
    by (simp add: StoreInvariant_def GetHTLC_def empty_ctx_simps)
  have rb: "RoundTrips (cdc bare_keeper) example_htlc"
    by (simp add: RoundTrips_def bare_keeper_simps example_decodes)
  have key: "KeyHTLC ?d = KeyHTLCExpireQueue 1000 record_lock"
    by (simp add: KeyHTLC_def KeyHTLCExpireQueue_def PrefixHTLC_def PrefixHTLCExpireQueue_def
        bytes_of_string_def)
  have gb: "GetHTLC bare_keeper
     (fst (CreateHTLC bare_keeper (empty_ctx full_ledger) example_htlc record_lock)) ?d
     = Inr ?s"
    unfolding GetHTLC_def key
    by (simp add: CreateHTLC_eq empty_ctx_simps bare_keeper_simps example_htlc_simps
        ledger_SendCoins_def full_ledger_def record_lock_decodes)
  from gb bad have nb: "\<not> StoreInvariant bare_keeper
     (fst (CreateHTLC bare_keeper (empty_ctx full_ledger) example_htlc record_lock))"
    by (auto simp: StoreInvariant_def)
  show ?thesis
    by (intro conjI i secret lock c g' n StoreInvariant_empty_ctx gc nc ib ok rb gb nb)
qed



section \<open>The hash lock\<close>

text \<open>
  C7. \<open>GetSecretHashLock\<close> is to be a function without side effects. It is not, where the
  secret it is given has eight bytes of capacity to spare: for \<^verbatim>\<open>buf[:1]\<close> of a buffer
  of nine bytes, \<^verbatim>\<open>append\<close> writes the timestamp into \<^verbatim>\<open>buf[1:9]\<close>. The secret's own
  byte stays, and the digest is SHA-256 of the secret and the timestamp all the same.
\<close>

theorem GetSecretHashLock_writes_into_the_array:
  "one_array [0x61] [0, 0, 0, 0, 0, 0, 0, 0] 0 = [0x61, 0, 0, 0, 0, 0, 0, 0, 0] \<and>
   slice_bytes (one_array [0x61] [0, 0, 0, 0, 0, 0, 0, 0]) roomy_slice = [0x61] \<and>
   fst (GetSecretHashLock example_keeper (one_array [0x61] [0, 0, 0, 0, 0, 0, 0, 0])
          roomy_slice 1580000000) 0
     = [0x61, 0, 0, 0, 0, 0x5e, 0x2c, 0xe3, 0] \<and>
   slice_bytes
     (fst (GetSecretHashLock example_keeper (one_array [0x61] [0, 0, 0, 0, 0, 0, 0, 0])
             roomy_slice 1580000000)) roomy_slice = [0x61] \<and>
   EncodeToString
     (snd (GetSecretHashLock example_keeper (one_array [0x61] [0, 0, 0, 0, 0, 0, 0, 0])
             roomy_slice 1580000000))
     = ''499f8b9fa707f0883436c14e777ae300d91cb08e5aa98c710e44c06e9d37a554''"
proof -
  let ?h = "one_array [0x61] [0, 0, 0, 0, 0, 0, 0, 0]"
  have a: "?h 0 = [0x61, 0, 0, 0, 0, 0, 0, 0, 0]" by (simp add: one_array_def)
  have be: "Uint64ToBigEndian 1580000000 = [0, 0, 0, 0, 0x5e, 0x2c, 0xe3, 0]"
    by code_simp
  have v: "valid_slice ?h roomy_slice" by (simp add: valid_slice_def roomy_slice_def a)
  have s: "slice_bytes ?h roomy_slice = [0x61]"
    by (simp add: slice_bytes_def roomy_slice_def a)
  have w: "fst (GetSecretHashLock example_keeper ?h roomy_slice 1580000000) 0
     = [0x61, 0, 0, 0, 0, 0x5e, 0x2c, 0xe3, 0]"
    by (simp add: fst_GetSecretHashLock append_slice_def roomy_slice_def be a overwrite_def
        Let_def)
  have d: "EncodeToString (SHA256 ([0x61] @ [0, 0, 0, 0, 0x5e, 0x2c, 0xe3, 0]))
     = ''499f8b9fa707f0883436c14e777ae300d91cb08e5aa98c710e44c06e9d37a554''"
    by code_simp
  show ?thesis
    using a s w d
    by (simp add: GetSecretHashLock_digest [OF v] GetSecretHashLock_keeps_secret be)
qed

text \<open>
  What the write does to a claim. The secret and the hash lock are cut from one buffer,
  the secret first. The record is at the hash lock, it is \<open>Open\<close>, the digest of the
  secret is the hash lock, the bank keeper would pay; computing the digest writes the
  timestamp over the first eight bytes of the hash lock, the comparison that follows
  reads them, and \<open>ClaimHTLC\<close> returns \<^verbatim>\<open>ErrInvalidSecret\<close>.
\<close>

lemma example_lock_bytes:
  "example_lock =
     [0x32, 0x61, 0xa4, 0x44, 0x30, 0x8d, 0xad, 0x5f, 0x4b, 0xa3, 0x26, 0xb0, 0x42, 0xbe, 0xb6,
      0xca, 0x08, 0x91, 0x80, 0x9e, 0xe5, 0xd6, 0xc3, 0x8f, 0x49, 0x32, 0x23, 0x13, 0x3b, 0x6b,
      0x5e, 0x45]"
  by code_simp

lemma ClaimHTLC_shared_buffer:
  "slice_bytes (one_array example_secret example_lock) shared_secret_slice = example_secret \<and>
   slice_bytes (one_array example_secret example_lock) shared_lock_slice = example_lock \<and>
   GetHTLC example_keeper (stored_ctx full_ledger example_htlc example_lock) example_lock
     = Inr example_htlc \<and>
   State example_htlc = StateOpen \<and>
   snd (GetSecretHashLock example_keeper (one_array example_secret example_lock)
          shared_secret_slice (Timestamp example_htlc)) = example_lock \<and>
   snd (snd (ClaimHTLC example_keeper (stored_ctx full_ledger example_htlc example_lock)
          (one_array example_secret example_lock) shared_secret_slice shared_lock_slice))
     = Inl (Error (ErrInvalidSecret ''htlc''
         (''invalid secret: '' @ EncodeToString example_secret)))"
proof -
  let ?ctx = "stored_ctx full_ledger example_htlc example_lock"
  let ?h = "one_array example_secret example_lock"
  have a: "?h 0 = example_secret @ example_lock" by (simp add: one_array_def)
  have len: "length example_secret = 7" "length example_lock = 32" by (rule example_lengths)+
  have secret: "slice_bytes ?h shared_secret_slice = example_secret"
    and lock: "slice_bytes ?h shared_lock_slice = example_lock"
    by (simp_all add: slice_bytes_def shared_secret_slice_def shared_lock_slice_def a len)
  have v: "valid_slice ?h shared_secret_slice"
    by (simp add: valid_slice_def shared_secret_slice_def a len)
  have g: "GetHTLC example_keeper ?ctx (slice_bytes ?h shared_lock_slice) = Inr example_htlc"
    unfolding lock by (rule GetHTLC_stored_ctx) (rule example_decodes)
  obtain h1 digest where
    gs: "GetSecretHashLock example_keeper ?h shared_secret_slice (Timestamp example_htlc)
           = (h1, digest)"
    by (cases "GetSecretHashLock example_keeper ?h shared_secret_slice (Timestamp example_htlc)")
  then have h1: "h1 = fst (GetSecretHashLock example_keeper ?h shared_secret_slice
      (Timestamp example_htlc))" by simp
  have d0: "snd (GetSecretHashLock example_keeper ?h shared_secret_slice
      (Timestamp example_htlc)) = example_lock"
    by (subst GetSecretHashLock_digest [OF v], subst secret, simp only: example_lock_def)
  have digest: "digest = example_lock"
    using d0 unfolding gs by simp
  have be: "Uint64ToBigEndian 1580000000 = [0, 0, 0, 0, 0x5e, 0x2c, 0xe3, 0]"
    by code_simp
  have "h1 0 = overwrite (example_secret @ example_lock) 7 [0, 0, 0, 0, 0x5e, 0x2c, 0xe3, 0]"
    by (simp add: h1 fst_GetSecretHashLock append_slice_def shared_secret_slice_def Let_def
        example_htlc_simps be a)
  then have "slice_bytes h1 shared_lock_slice ! 0 = 0"
    by (simp add: slice_bytes_def shared_lock_slice_def example_secret_def example_lock_bytes
        overwrite_def)
  moreover have "example_lock ! 0 = 0x32" by (simp add: example_lock_bytes)
  ultimately have ne: "digest \<noteq> slice_bytes h1 shared_lock_slice"
    unfolding digest by auto
  have s1: "slice_bytes h1 shared_secret_slice = example_secret"
    by (simp add: h1 GetSecretHashLock_keeps_secret secret)
  have g0: "GetHTLC example_keeper ?ctx example_lock = Inr example_htlc"
    by (rule GetHTLC_stored_ctx) (rule example_decodes)
  have s: "State example_htlc = StateOpen" by (simp add: example_htlc_simps)
  have c: "snd (snd (ClaimHTLC example_keeper ?ctx ?h shared_secret_slice shared_lock_slice))
     = Inl (Error (ErrInvalidSecret ''htlc''
         (''invalid secret: '' @ EncodeToString example_secret)))"
    using ne by (simp add: ClaimHTLC_Inr [OF g gs] s1 example_htlc_simps
        example_keeper_simps)
  show ?thesis by (intro conjI secret lock g0 s d0 c)
qed



section \<open>Reading back what was written\<close>

text \<open>
  C8. After \<open>SetHTLC\<close> the key of the hash lock holds the encoding of the record, and
  \<open>GetHTLC\<close> returns the record where the codec round-trips it. After
  \<open>AddHTLCToExpireQueue\<close> the scan of the height yields the digest; after
  \<open>DeleteHTLCFromExpireQueue\<close> it does not; neither changes what the scans yield for
  any other height and digest.
\<close>

theorem store_and_queue_round_trip:
  "KVStore (SetHTLC k ctx htlc secretHashLock) (KeyHTLC secretHashLock)
     = Some (MarshalHTLC (cdc k) htlc) \<and>
   (RoundTrips (cdc k) htlc \<longrightarrow>
      GetHTLC k (SetHTLC k ctx htlc secretHashLock) secretHashLock = Inr htlc) \<and>
   InExpireQueueScan (AddHTLCToExpireQueue k ctx expireHeight secretHashLock)
     expireHeight secretHashLock \<and>
   \<not> InExpireQueueScan (DeleteHTLCFromExpireQueue k ctx expireHeight secretHashLock)
     expireHeight secretHashLock \<and>
   (\<forall>h d. (h, d) \<noteq> (expireHeight, secretHashLock) \<longrightarrow>
      InExpireQueueScan (AddHTLCToExpireQueue k ctx expireHeight secretHashLock) h d
        = InExpireQueueScan ctx h d \<and>
      InExpireQueueScan (DeleteHTLCFromExpireQueue k ctx expireHeight secretHashLock) h d
        = InExpireQueueScan ctx h d)"
  by (auto simp: SetHTLC_def GetHTLC_def RoundTrips_def InExpireQueueScan_def
      AddHTLCToExpireQueue_def DeleteHTLCFromExpireQueue_def KeyHTLCExpireQueue_eq_iff)

theorem store_and_queue_round_trip_witness:
  "GetHTLC example_keeper (SetHTLC example_keeper (empty_ctx full_ledger) example_htlc example_lock)
     example_lock = Inr example_htlc \<and>
   InExpireQueueScan
     (AddHTLCToExpireQueue example_keeper (empty_ctx full_ledger) 1000 example_lock)
     1000 example_lock \<and>
   \<not> InExpireQueueScan
     (DeleteHTLCFromExpireQueue example_keeper
        (AddHTLCToExpireQueue example_keeper (empty_ctx full_ledger) 1000 example_lock)
        1000 example_lock)
     1000 example_lock \<and>
   InExpireQueueScan
     (DeleteHTLCFromExpireQueue example_keeper
        (AddHTLCToExpireQueue example_keeper (empty_ctx full_ledger) 1000 example_lock)
        1001 example_lock)
     1000 example_lock"
proof -
  let ?add = "AddHTLCToExpireQueue example_keeper (empty_ctx full_ledger) 1000 example_lock"
  have r: "RoundTrips (cdc example_keeper) example_htlc"
    by (simp add: RoundTrips_def example_keeper_simps example_cdc_simps example_decodes)
  have ne: "((1000 :: 64 word), example_lock) \<noteq> (1001, example_lock)" by simp
  note t1 = store_and_queue_round_trip
    [of example_keeper "empty_ctx full_ledger" example_htlc example_lock 1000]
  note t2 = store_and_queue_round_trip [of example_keeper ?add example_htlc example_lock 1000]
  note t3 = store_and_queue_round_trip [of example_keeper ?add example_htlc example_lock 1001]
  from t1 r have "GetHTLC example_keeper
      (SetHTLC example_keeper (empty_ctx full_ledger) example_htlc example_lock) example_lock
      = Inr example_htlc" and a: "InExpireQueueScan ?add 1000 example_lock" by blast+
  moreover from t2 have "\<not> InExpireQueueScan
      (DeleteHTLCFromExpireQueue example_keeper ?add 1000 example_lock) 1000 example_lock"
    by blast
  moreover from t3 ne a have "InExpireQueueScan
      (DeleteHTLCFromExpireQueue example_keeper ?add 1001 example_lock) 1000 example_lock"
    by blast
  ultimately show ?thesis by simp
qed


section \<open>Creation does not check the hash lock\<close>

text \<open>
  C9. Whatever bytes the caller passes as the hash lock: if the store has no record at
  them and the transfer from the sender to the denomination's address succeeds,
  \<open>CreateHTLC\<close> succeeds and stores the record under them. \<open>GetSecretHashLock\<close> is not
  consulted; the example creates a contract under a one-byte hash lock, which is the
  hash lock of no secret.
\<close>

theorem CreateHTLC_accepts_any_hash_lock:
  "\<not> HasSecretHashLock k ctx secretHashLock \<Longrightarrow>
   snd (bk k (bank ctx) (Sender htlc) (getHTLCAddress (Denom (OutAmount htlc)))
          [OutAmount htlc]) = None \<Longrightarrow>
   snd (CreateHTLC k ctx htlc secretHashLock) =
     Inr [(TagSender, AddressString (Sender htlc)),
          (TagReceiver, AddressString (Receiver htlc)),
          (TagReceiverOnOtherChain, Raw (ReceiverOnOtherChain htlc)),
          (TagSecretHashLock, Text (EncodeToString secretHashLock))] \<and>
   KVStore (fst (CreateHTLC k ctx htlc secretHashLock)) (KeyHTLC secretHashLock)
     = Some (MarshalHTLC (cdc k) htlc)"
  by (auto simp: CreateHTLC_eq HasSecretHashLock_def KeyHTLC_neq_KeyHTLCExpireQueue
      split: prod.splits option.splits)

theorem CreateHTLC_accepts_any_hash_lock_witness:
  "(\<forall>h secret timestamp.
      snd (GetSecretHashLock example_keeper h secret timestamp) \<noteq> [0xff]) \<and>
   snd (CreateHTLC example_keeper (empty_ctx full_ledger) example_htlc [0xff]) =
     Inr [(TagSender, AddressString [1, 2, 3]), (TagReceiver, AddressString [4, 5, 6]),
          (TagReceiverOnOtherChain, Raw [7]), (TagSecretHashLock, Text ''ff'')] \<and>
   KVStore (fst (CreateHTLC example_keeper (empty_ctx full_ledger) example_htlc [0xff]))
     (KeyHTLC [0xff]) = Some (example_MarshalHTLC example_htlc)"
proof -
  have n: "\<not> HasSecretHashLock example_keeper (empty_ctx full_ledger) [0xff]"
    by (simp add: HasSecretHashLock_def empty_ctx_simps)
  have s: "snd (bk example_keeper (bank (empty_ctx full_ledger)) (Sender example_htlc)
                 (getHTLCAddress (Denom (OutAmount example_htlc))) [OutAmount example_htlc]) = None"
    by (simp add: example_keeper_simps empty_ctx_simps example_htlc_simps full_ledger_sends)
  have h: "\<forall>h secret timestamp.
      snd (GetSecretHashLock example_keeper h secret timestamp) \<noteq> [0xff]"
  proof (intro allI notI)
    fix h secret timestamp
    assume "snd (GetSecretHashLock example_keeper h secret timestamp) = [0xff]"
    then have "length (snd (GetSecretHashLock example_keeper h secret timestamp)) = 1"
      by simp
    then show False by (simp add: length_GetSecretHashLock)
  qed
  have e: "EncodeToString [0xff] = ''ff''"
    by (simp add: EncodeToString_def hextable_def)
  from CreateHTLC_accepts_any_hash_lock [OF n s] h e
  show ?thesis by (simp add: example_htlc_simps example_keeper_simps example_cdc_simps)
qed


section \<open>The expiration index after a claim\<close>

text \<open>
  C10. A successful \<open>ClaimHTLC\<close> leaves the store's value at the key of the record's
  expire height and the hash lock as it was, so the entry of the claimed contract stays
  in the expiration index. No operation of the life cycle removes an entry: what a scan
  of the index yields before \<open>ClaimHTLC\<close>, \<open>CreateHTLC\<close> or \<open>RefundHTLC\<close>, it yields
  after, and it is \<open>DeleteHTLCFromExpireQueue\<close> that removes it. For \<open>ClaimHTLC\<close> this
  holds of every heap and every two slices.
\<close>

theorem ClaimHTLC_keeps_expire_queue:
  "(\<forall>ctx' h' tags htlc. ClaimHTLC k ctx h secret lock = (ctx', h', Inr tags) \<and>
        GetHTLC k ctx (slice_bytes h lock) = Inr htlc \<longrightarrow>
      KVStore ctx' (KeyHTLCExpireQueue (ExpireHeight htlc) (slice_bytes h lock))
        = KVStore ctx (KeyHTLCExpireQueue (ExpireHeight htlc) (slice_bytes h lock))) \<and>
   (\<forall>e d. InExpireQueueScan ctx e d \<longrightarrow>
      InExpireQueueScan (fst (ClaimHTLC k ctx h secret lock)) e d \<and>
      InExpireQueueScan (fst (CreateHTLC k ctx htlc secretHashLock)) e d \<and>
      InExpireQueueScan (fst (RefundHTLC k ctx secretHashLock)) e d \<and>
      \<not> InExpireQueueScan (DeleteHTLCFromExpireQueue k ctx e d) e d)"
proof (intro conjI allI impI)
  fix ctx' h' tags r
  assume a: "ClaimHTLC k ctx h secret lock = (ctx', h', Inr tags) \<and>
    GetHTLC k ctx (slice_bytes h lock) = Inr r"
  from ClaimHTLC_store [of k ctx h secret lock] a
  consider "KVStore ctx' = KVStore ctx"
    | d v where "length d = length (slice_bytes h lock)"
        and "KVStore ctx' = (KVStore ctx)(KeyHTLC d \<mapsto> v)"
    by auto
  then show "KVStore ctx' (KeyHTLCExpireQueue (ExpireHeight r) (slice_bytes h lock))
        = KVStore ctx (KeyHTLCExpireQueue (ExpireHeight r) (slice_bytes h lock))"
  proof cases
    case 1
    then show ?thesis by simp
  next
    case 2
    have "KeyHTLC d \<noteq> KeyHTLCExpireQueue (ExpireHeight r) (slice_bytes h lock)"
      by (rule KeyHTLC_neq_KeyHTLCExpireQueue) (simp add: 2(1))
    then show ?thesis unfolding 2(2) by auto
  qed
next
  fix e d assume "InExpireQueueScan ctx e d"
  with ClaimHTLC_store [of k ctx h secret lock]
  show "InExpireQueueScan (fst (ClaimHTLC k ctx h secret lock)) e d"
    by (auto simp: InExpireQueueScan_def)
next
  fix e d assume "InExpireQueueScan ctx e d"
  with CreateHTLC_store [of k ctx htlc secretHashLock]
  show "InExpireQueueScan (fst (CreateHTLC k ctx htlc secretHashLock)) e d"
    by (auto simp: InExpireQueueScan_def)
next
  fix e d assume "InExpireQueueScan ctx e d"
  with RefundHTLC_store [of k ctx secretHashLock]
  show "InExpireQueueScan (fst (RefundHTLC k ctx secretHashLock)) e d"
    by (auto simp: InExpireQueueScan_def)
next
  fix e d
  show "\<not> InExpireQueueScan (DeleteHTLCFromExpireQueue k ctx e d) e d"
    by (simp add: InExpireQueueScan_def DeleteHTLCFromExpireQueue_def)
qed

theorem ClaimHTLC_keeps_expire_queue_witness:
  "InExpireQueueScan (stored_ctx full_ledger example_htlc example_lock) 1000 example_lock \<and>
   slice_bytes (two_arrays example_secret example_lock) lock_slice = example_lock \<and>
   snd (snd (ClaimHTLC example_keeper (stored_ctx full_ledger example_htlc example_lock)
          (two_arrays example_secret example_lock) secret_slice lock_slice)) =
     Inr [(TagSender, AddressString [1, 2, 3]), (TagReceiver, AddressString [4, 5, 6]),
          (TagSecretHashLock, Text (EncodeToString example_lock)),
          (TagSecret, Text (EncodeToString example_secret))] \<and>
   KVStore (fst (ClaimHTLC example_keeper (stored_ctx full_ledger example_htlc example_lock)
                   (two_arrays example_secret example_lock) secret_slice lock_slice))
       (KeyHTLCExpireQueue 1000 example_lock) = Some (put_bytes example_lock) \<and>
   InExpireQueueScan
     (fst (ClaimHTLC example_keeper (stored_ctx full_ledger example_htlc example_lock)
             (two_arrays example_secret example_lock) secret_slice lock_slice))
     1000 example_lock"
proof -
  let ?ctx = "stored_ctx full_ledger example_htlc example_lock"
  let ?h = "two_arrays example_secret example_lock"
  have lock: "slice_bytes ?h lock_slice = example_lock"
    by (simp add: slice_bytes_two_arrays example_lengths)
  have g: "GetHTLC example_keeper ?ctx (slice_bytes ?h lock_slice) = Inr example_htlc"
    unfolding lock by (rule GetHTLC_stored_ctx) (rule example_decodes)
  have i: "InExpireQueueScan ?ctx 1000 example_lock"
    by (simp add: InExpireQueueScan_def stored_ctx_simps example_htlc_simps)
  have v: "KVStore ?ctx (KeyHTLCExpireQueue 1000 example_lock) = Some (put_bytes example_lock)"
    by (simp add: stored_ctx_simps example_htlc_simps)
  obtain ctx' h' where c: "ClaimHTLC example_keeper ?ctx ?h secret_slice lock_slice =
     (ctx', h', Inr [(TagSender, AddressString [1, 2, 3]), (TagReceiver, AddressString [4, 5, 6]),
          (TagSecretHashLock, Text (EncodeToString example_lock)),
          (TagSecret, Text (EncodeToString example_secret))])"
    using ClaimHTLC_example
    by (cases "ClaimHTLC example_keeper ?ctx ?h secret_slice lock_slice") auto
  note t = ClaimHTLC_keeps_expire_queue
    [where k = example_keeper and ctx = ?ctx and h = ?h and secret = secret_slice
       and lock = lock_slice and htlc = example_htlc and secretHashLock = example_lock]
  from t c g have "KVStore ctx' (KeyHTLCExpireQueue (ExpireHeight example_htlc)
          (slice_bytes ?h lock_slice))
        = KVStore ?ctx (KeyHTLCExpireQueue (ExpireHeight example_htlc)
          (slice_bytes ?h lock_slice))"
    by blast
  moreover from t i
  have "InExpireQueueScan (fst (ClaimHTLC example_keeper ?ctx ?h secret_slice lock_slice))
          1000 example_lock" by blast
  ultimately show ?thesis using i v c lock by (simp add: example_htlc_simps)
qed

end
